theory Spec2Isabelle
  imports Main "HOL-Library.AList" "HOL-Library.Word"
begin

section \<open>Data model of \<open>ros_sugar/launch/launcher.py\<close>\<close>

text \<open>
  The launcher is a Python class with mutable attributes. Its methods are modelled as
  functions on a record of those attributes; component objects live in a store indexed
  by object identity (\<open>ref\<close>), because lists and actions share them by reference.
  An exception is a value: a method that raises returns \<open>Raised e s\<close>, where \<open>s\<close> is the
  launcher as the mutations before the raise left it.
\<close>

type_synonym ref = nat

type_synonym bytes = "8 word list"

text \<open>Python values that cross the model: action arguments and serialized payloads.\<close>

datatype pyval =
    PNone
  | PInt int
  | PStr string
  | PBytes bytes
  | PObj ref
  | PList "pyval list"

text \<open>The three constants of \<open>lifecycle_msgs.msg.Transition\<close> that the launcher uses.\<close>

datatype transition = TRANSITION_CONFIGURE | TRANSITION_ACTIVATE | TRANSITION_DEACTIVATE

text \<open>
  \<open>Event\<close> objects are dictionary keys. The class itself is outside the file; an event is
  modelled by the identity its hash and equality give it (\<open>event_id\<close>) together with its
  \<open>name\<close> attribute, so that two events are the same key exactly when they are equal.
\<close>

record event =
  event_id :: nat
  name :: string

text \<open>
  The attributes of \<open>core.action.Action\<close> that the launcher reads.
  \<open>executable_self\<close> is \<open>action.executable.__self__\<close>, the object the action's method
  is bound to.
\<close>

record action =
  action_name :: string
  parent_component :: string
  component_action :: bool
  monitor_action :: bool
  executable_self :: ref
  args :: "pyval list"
  kwargs :: "(string \<times> pyval) list"

text \<open>
  An item of an events/actions dictionary is either a ROS launch action (opaque to the
  launcher, identified here by a number) or an \<open>Action\<close> (\<open>isinstance(action, ROSLaunchAction)\<close>
  tells them apart). A dictionary value is a single item or a list of items.
\<close>

datatype entry = Ros nat | Act action

datatype raw_action = Single entry | Many "entry list"

datatype run_type = TIMED | EVENT | SERVER | ACTION_SERVER

text \<open>
  \<open>BaseComponent\<close> is outside the file. A component is modelled by what the launcher
  reads and writes: its name, run type, whether it is a lifecycle node, its bound methods
  with, for each, whether it is declared as a fallback and the parameters of its signature
  (name, has a default), and the attributes the launcher sets.
\<close>

record method_info =
  is_fallback :: bool
  parameters :: "(string \<times> bool) list"

record component =
  node_name :: string
  comp_run_type :: run_type
  is_managed_entity :: bool
  methods :: "(string \<times> method_info) list"
  external_processors :: "(string \<times> string list) list"
  launch_cmd_args :: "string list"
  comp_config_file :: "string option"
  configured_with :: "string list"
  on_fail_policy :: "(string \<times> int option) option"
  comp_events_actions :: "(event \<times> action list) list"

record monitor =
  components_names :: "string list"
  enable_health_status_monitoring :: bool
  events_actions :: "(event \<times> action list) list"
  events_to_emit :: "event list option"
  services_components :: "ref list"
  action_servers_components :: "ref list"
  activate_on_start :: "ref list"

text \<open>Launch entities (\<open>SomeEntitiesType\<close>) that the launcher builds.\<close>

datatype entity =
    PushRosNamespace string
  | LifecycleTransition "string list" "transition list"
  | LogInfo string
  | RosLaunchAction nat
  | ActionLaunch action
  | ComponentStartLaunch ref
  | RegisterEventHandler string "entity list"
  | MonitorLaunchAction monitor string
  | ComponentLaunchAction ref string string string
  | LifecycleNodeLaunchAction string string string string "string list"
  | NodeLaunchAction string string string string "string list"
  | GroupAction "entity list"

datatype message =
    MultiprocessNeedsPackage
  | InvalidActionForCondition string ref
  | NotAValidEventHandler string
  | UnavailableComponentAction string string
  | UnknownActionComponent string
  | DuplicateEventsNames
  | DuplicateComponentNames "string list"
  | FallbackTakesArguments string "(string \<times> bool) list"
  | NonValidFallback string string "string list"
  | NoComponentsAdded
  | MsgpackNotInstalled
  | OtherMessage

datatype error =
    ValueError message
  | InvalidAction message
  | TypeError message
  | AttributeError message
  | ModuleNotFoundError message
  | UnpackError message
  | IndexError message
  | OutsideFragment

record launcher =
  namespace :: string
  config_file :: "string option"
  enable_monitoring :: bool
  description :: "entity list"
  launch_group :: "entity list"
  components :: "ref list"
  pkg_executable :: "(string option \<times> string option) list"
  components_to_activate_on_start :: "(ref \<times> bool) list"
  internal_events :: "event list option"
  internal_event_names :: "string list option"
  monitor_actions :: "(event \<times> action list) list"
  ros_actions :: "(event \<times> entry list) list"
  components_actions :: "(event \<times> action list) list"
  monitor_node :: "monitor option"
  thread_pool :: "string list option"
  bound_sockets :: "string list"
  msgpack_installed :: bool
  ls :: "entity list option"
  heap :: "ref \<Rightarrow> component"

datatype outcome = Returned launcher | Raised error launcher

text \<open>The exception a call ended with, if any, and the launcher it left.\<close>

fun raised :: "outcome \<Rightarrow> error option" where
  "raised (Returned s) = None"
| "raised (Raised e s) = Some e"

fun state_of :: "outcome \<Rightarrow> launcher" where
  "state_of (Returned s) = s"
| "state_of (Raised e s) = s"

text \<open>\<open>Launcher.__init__\<close>: the attributes of a fresh launcher.\<close>

definition Launcher_init ::
  "string \<Rightarrow> string option \<Rightarrow> bool \<Rightarrow> bool \<Rightarrow> (ref \<Rightarrow> component) \<Rightarrow> launcher" where
  "Launcher_init ns cfg monitoring msgpack objects =
     \<lparr> namespace = ns, config_file = cfg, enable_monitoring = monitoring,
       description = [PushRosNamespace ns], launch_group = [],
       components = [], pkg_executable = [], components_to_activate_on_start = [],
       internal_events = None, internal_event_names = None,
       monitor_actions = [], ros_actions = [], components_actions = [],
       monitor_node = None, thread_pool = None, bound_sockets = [],
       msgpack_installed = msgpack, ls = None, heap = objects \<rparr>"

section \<open>Launch action handlers\<close>

text \<open>
  \<open>start\<close>, \<open>stop\<close> and \<open>restart\<close> take \<open>self\<close>, the node name and arbitrary further
  keyword arguments (\<open>**_\<close>), and return a one-element list of launch entities.
\<close>

definition start :: "launcher \<Rightarrow> string \<Rightarrow> (string \<times> pyval) list \<Rightarrow> entity list" where
  "start self nn kw =
     [LifecycleTransition [nn] [TRANSITION_CONFIGURE, TRANSITION_ACTIVATE]]"

definition stop :: "launcher \<Rightarrow> string \<Rightarrow> (string \<times> pyval) list \<Rightarrow> entity list" where
  "stop self nn kw = [LifecycleTransition [nn] [TRANSITION_DEACTIVATE]]"

definition restart :: "launcher \<Rightarrow> string \<Rightarrow> (string \<times> pyval) list \<Rightarrow> entity list" where
  "restart self nn kw =
     [LifecycleTransition [nn] [TRANSITION_DEACTIVATE, TRANSITION_ACTIVATE]]"

section \<open>Attribute lookup and dispatch of a component action\<close>

text \<open>
  \<open>getattr(self, action.action_name)\<close> gives an attribute or raises \<open>AttributeError\<close>
  (\<open>None\<close> here). An attribute records whether \<open>has_decorator(attr, "action_handler")\<close>
  holds, and what calling it does. A call receives \<open>self\<close>, the positional arguments, the
  action's keyword arguments, and the two keyword arguments the launcher adds
  (\<open>node_name\<close> and \<open>component\<close>).
\<close>

text \<open>
  Modelled from the spec: \<open>has_decorator\<close>, of \<open>utils\<close>, is outside the file. The check
  "verifies the requested operation is a registered handler operation (capability check,
  not a plain attribute lookup)", so \<open>has_action_handler\<close> is the mark that the
  \<open>@action_handler\<close> decorator leaves on a method.
\<close>

record attr =
  has_action_handler :: bool
  call :: "launcher \<Rightarrow> pyval list \<Rightarrow> (string \<times> pyval) list \<Rightarrow> string \<Rightarrow> ref \<Rightarrow> error + entity list"

text \<open>
  Python's binding of a call to a method declared \<open>(self, node_name, **_)\<close>: a positional
  argument would bind \<open>node_name\<close> a second time, which is a \<open>TypeError\<close>; every keyword
  argument other than \<open>node_name\<close> goes to \<open>**_\<close>.
\<close>

definition bind_handler ::
  "(launcher \<Rightarrow> string \<Rightarrow> (string \<times> pyval) list \<Rightarrow> entity list) \<Rightarrow>
   launcher \<Rightarrow> pyval list \<Rightarrow> (string \<times> pyval) list \<Rightarrow> string \<Rightarrow> ref \<Rightarrow> error + entity list" where
  "bind_handler f self as kws nn cref =
     (if as \<noteq> [] then Inl (TypeError OtherMessage)
      else Inr (f self nn (kws @ [(''component'', PObj cref)])))"

definition handler_attr ::
  "(launcher \<Rightarrow> string \<Rightarrow> (string \<times> pyval) list \<Rightarrow> entity list) \<Rightarrow> attr" where
  "handler_attr f = \<lparr> has_action_handler = True, call = bind_handler f \<rparr>"

text \<open>
  An attribute without the decorator. Dispatch never calls it, so what its call would do
  is left as the \<open>TypeError\<close> of a call with the wrong arguments.
\<close>

definition plain_attr :: attr where
  "plain_attr = \<lparr> has_action_handler = False,
                  call = (\<lambda>self as kws nn cref. Inl (TypeError OtherMessage)) \<rparr>"

text \<open>
  The attributes that class \<open>Launcher\<close> itself defines, and those its methods have set
  when \<open>_setup_internal_events_handlers\<close> calls the dispatch (\<open>monitor_node\<close> is set by
  then, \<open>ls\<close> is not); names with two leading underscores are stored mangled. What every
  Python object inherits from \<open>object\<close> is not listed, so the table is a lower bound of
  what \<open>getattr\<close> finds; the properties of dispatch are stated for every table. The
  three decorated methods are the handlers.
\<close>

definition Launcher_plain_names :: "string list" where
  "Launcher_plain_names =
     [''__init__'', ''add_pkg'', ''_setup_component_events_handlers'', ''_Launcher__update_dict_list'',
      ''_Launcher__rewrite_actions_for_components'', ''_activate_components_action'',
      ''fallback_rate'', ''on_fail'', ''_get_action_launch_entity'',
      ''_setup_internal_events_handlers'', ''_setup_monitor_node'',
      ''_Launcher__listen_for_external_processing'', ''_setup_external_processors'',
      ''_setup_component_in_process'', ''_setup_component_in_thread'', ''_start_ros_launch'',
      ''configure'', ''add_py_executable'', ''add_method'', ''bringup'',
      ''_description'', ''_namespace'', ''_config_file'', ''_Launcher__enable_monitoring'',
      ''_launch_group'', ''components'', ''_pkg_executable'',
      ''_Launcher__components_to_activate_on_start'', ''_internal_events'',
      ''_internal_event_names'', ''_monitor_actions'', ''_ros_actions'',
      ''_components_actions'', ''thread_pool'', ''monitor_node'']"

definition Launcher_attrs :: "string \<Rightarrow> attr option" where
  "Launcher_attrs nm =
     (if nm = ''start'' then Some (handler_attr start)
      else if nm = ''stop'' then Some (handler_attr stop)
      else if nm = ''restart'' then Some (handler_attr restart)
      else if nm \<in> set Launcher_plain_names then Some plain_attr
      else None)"

text \<open>
  The search loop of \<open>_get_action_launch_entity\<close>:
  \<^verbatim>\<open>
  comp = None
  for comp in self.components:
      if comp.node_name == action.parent_component:
          break
  \<close>
  The loop variable is \<open>comp\<close> itself, so every iteration rebinds it; the function returns
  the value \<open>comp\<close> has after the loop.
\<close>

fun find_component :: "(ref \<Rightarrow> component) \<Rightarrow> string \<Rightarrow> ref option \<Rightarrow> ref list \<Rightarrow> ref option" where
  "find_component h pc cur [] = cur"
| "find_component h pc cur (c # cs) =
     (if node_name (h c) = pc then Some c else find_component h pc (Some c) cs)"

text \<open>
  \<open>_get_action_launch_entity\<close>. \<open>if not comp\<close> holds for \<open>None\<close> only (a component object is
  true). Passing \<open>**action.kwargs\<close> next to \<open>node_name=\<close> and \<open>component=\<close> is a
  \<open>TypeError\<close> when the action's keyword arguments already use one of these names.
\<close>

definition get_action_launch_entity ::
  "(string \<Rightarrow> attr option) \<Rightarrow> launcher \<Rightarrow> action \<Rightarrow> error + entity list" where
  "get_action_launch_entity attrs self a =
     (case attrs (action_name a) of
        None \<Rightarrow>
          Inl (InvalidAction (UnavailableComponentAction (parent_component a) (action_name a)))
      | Some action_method \<Rightarrow>
          if \<not> has_action_handler action_method
          then Inl (InvalidAction (NotAValidEventHandler (action_name a)))
          else
            (case find_component (heap self) (parent_component a) None (components self) of
               None \<Rightarrow> Inl (InvalidAction (UnknownActionComponent (parent_component a)))
             | Some cref \<Rightarrow>
                 if ''node_name'' \<in> set (map fst (kwargs a)) \<or> ''component'' \<in> set (map fst (kwargs a))
                 then Inl (TypeError OtherMessage)
                 else call action_method self (args a) (kwargs a) (parent_component a) cref))"

section \<open>Registration: \<open>add_pkg\<close>\<close>

text \<open>
  A Python \<open>dict\<close> keeps insertion order, and assigning to a key that exists keeps its
  place: an association list with \<open>AList.update\<close>. \<open>dictionary.get(name)\<close> is true when
  the key is there with a non-empty list.
\<close>

definition update_dict_list :: "('k \<times> 'v list) list \<Rightarrow> 'k \<Rightarrow> 'v \<Rightarrow> ('k \<times> 'v list) list" where
  "update_dict_list dictionary nm val =
     (case map_of dictionary nm of
        Some (x # xs) \<Rightarrow> AList.update nm ((x # xs) @ [val]) dictionary
      | _ \<Rightarrow> AList.update nm [val] dictionary)"

fun action_set :: "raw_action \<Rightarrow> entry list" where
  "action_set (Many xs) = xs"
| "action_set (Single x) = [x]"

text \<open>The body of the inner loop of \<open>__rewrite_actions_for_components\<close>, for one action.\<close>

fun rewrite_action :: "ref list \<Rightarrow> event \<Rightarrow> entry \<Rightarrow> launcher \<Rightarrow> outcome" where
  "rewrite_action components_list condition (Ros r) s =
     Returned (s\<lparr>ros_actions := update_dict_list (ros_actions s) condition (Ros r)\<rparr>)"
| "rewrite_action components_list condition (Act a) s =
     (if component_action a then
        (if count_list components_list (executable_self a) \<le> 0
         then Raised (InvalidAction (InvalidActionForCondition (name condition) (executable_self a))) s
         else Returned (s\<lparr>components_actions :=
                             update_dict_list (components_actions s) condition a\<rparr>))
      else if monitor_action a then
        Returned (s\<lparr>monitor_actions := update_dict_list (monitor_actions s) condition a\<rparr>)
      else Returned s)"

fun rewrite_action_set :: "ref list \<Rightarrow> event \<Rightarrow> entry list \<Rightarrow> launcher \<Rightarrow> outcome" where
  "rewrite_action_set components_list condition [] s = Returned s"
| "rewrite_action_set components_list condition (x # xs) s =
     (case rewrite_action components_list condition x s of
        Raised e s' \<Rightarrow> Raised e s'
      | Returned s' \<Rightarrow> rewrite_action_set components_list condition xs s')"

fun rewrite_actions_for_components ::
  "ref list \<Rightarrow> (event \<times> raw_action) list \<Rightarrow> launcher \<Rightarrow> outcome" where
  "rewrite_actions_for_components components_list [] s = Returned s"
| "rewrite_actions_for_components components_list ((condition, raw) # rest) s =
     (case rewrite_action_set components_list condition (action_set raw) s of
        Raised e s' \<Rightarrow> Raised e s'
      | Returned s' \<Rightarrow> rewrite_actions_for_components components_list rest s')"

text \<open>Truth of a Python \<open>str | None\<close> and of an optional list.\<close>

fun truthy :: "'a list option \<Rightarrow> bool" where
  "truthy None = False"
| "truthy (Some xs) = (xs \<noteq> [])"

text \<open>
  \<open>component.configure(config_file)\<close> belongs to \<open>BaseComponent\<close>, outside the file; the
  model records the file the component was configured with.
\<close>

definition configure_component :: "string \<Rightarrow> component \<Rightarrow> component" where
  "configure_component cfg c = c\<lparr>configured_with := configured_with c @ [cfg]\<rparr>"

fun configure_from_config_file :: "ref list \<Rightarrow> launcher \<Rightarrow> launcher" where
  "configure_from_config_file [] s = s"
| "configure_from_config_file (c # cs) s =
     configure_from_config_file cs
       (if truthy (config_file s)
        then s\<lparr>heap := (heap s)(c := configure_component (the (config_file s))
                                        ((heap s c)\<lparr>comp_config_file := config_file s\<rparr>))\<rparr>
        else s)"

text \<open>
  \<open>add_pkg\<close>, in the order of its body: the check of the multi-process arguments, the
  extension of the component list (\<open>add_pkg_components\<close>), the registration of the
  components to activate (\<open>add_pkg_activation\<close>), the events/actions, and the configuration
  from the launcher's file. The list passed in is taken to be a list object of its own,
  not the launcher's \<open>components\<close> list itself.
\<close>

definition add_pkg_components ::
  "launcher \<Rightarrow> ref list \<Rightarrow> string option \<Rightarrow> string option \<Rightarrow> launcher" where
  "add_pkg_components self comps pkg exe =
     (if components self = []
      then self\<lparr>components := comps,
                pkg_executable := replicate (length comps) (pkg, exe)\<rparr>
      else self\<lparr>components := components self @ comps,
                pkg_executable := pkg_executable self @ replicate (length comps) (pkg, exe)\<rparr>)"

definition add_pkg_activation ::
  "launcher \<Rightarrow> ref list \<Rightarrow> bool \<Rightarrow> bool \<Rightarrow> ref list option \<Rightarrow> launcher" where
  "add_pkg_activation s comps multiprocessing activate_all_components_on_start
     comps_to_activate_on_start =
     (if truthy comps_to_activate_on_start
      then s\<lparr>components_to_activate_on_start :=
                fold (\<lambda>c d. AList.update c multiprocessing d)
                  (the comps_to_activate_on_start) (components_to_activate_on_start s)\<rparr>
      else if activate_all_components_on_start
      then s\<lparr>components_to_activate_on_start :=
                fold (\<lambda>c d. AList.update c multiprocessing d)
                  comps (components_to_activate_on_start s)\<rparr>
      else s)"

definition add_pkg ::
  "launcher \<Rightarrow> ref list \<Rightarrow> string option \<Rightarrow> string option \<Rightarrow> (event \<times> raw_action) list option \<Rightarrow>
   bool \<Rightarrow> bool \<Rightarrow> ref list option \<Rightarrow> outcome" where
  "add_pkg self comps package_name executable_entry_point evs_actions multiprocessing
     activate_all_components_on_start comps_to_activate_on_start =
     (if multiprocessing \<and> (\<not> truthy package_name \<or> \<not> truthy executable_entry_point)
      then Raised (ValueError MultiprocessNeedsPackage) self
      else
        let pkg = (if multiprocessing then package_name else None);
            exe = (if multiprocessing then executable_entry_point else None);
            s2 = add_pkg_activation (add_pkg_components self comps pkg exe) comps
                   multiprocessing activate_all_components_on_start comps_to_activate_on_start
        in if truthy evs_actions \<and> enable_monitoring s2
           then (case rewrite_actions_for_components comps (the evs_actions) s2 of
                   Raised e s3 \<Rightarrow> Raised e s3
                 | Returned s3 \<Rightarrow> Returned (configure_from_config_file comps s3))
           else Returned (configure_from_config_file comps s2))"

section \<open>Fallbacks: \<open>on_fail\<close>\<close>

text \<open>
  Modelled from the spec: \<open>component.fallbacks\<close> and \<open>component.on_fail\<close> belong to
  \<open>BaseComponent\<close>, outside the file. The fallbacks of a component are its "declared
  fallback-eligible operations", so the names of its methods declared as fallbacks; and a
  fallback policy is "an Action plus an optional maximum-retries counter", which
  \<open>component.on_fail(action, max_retries)\<close> stores.
\<close>

definition fallbacks :: "component \<Rightarrow> string list" where
  "fallbacks c = map fst (filter (\<lambda>m. is_fallback (snd m)) (methods c))"

definition component_on_fail :: "string \<Rightarrow> int option \<Rightarrow> component \<Rightarrow> component" where
  "component_on_fail an max_retries c = c\<lparr>on_fail_policy := Some (an, max_retries)\<rparr>"

text \<open>
  The loop of \<open>Launcher.on_fail\<close> over \<open>self.components\<close>. \<open>getattr(component, action_name)\<close>
  is the lookup among the component's methods; \<open>inspect.signature(method).parameters\<close> are
  the parameters of the bound method, and \<open>x.default is inspect.Parameter.empty\<close> says that
  a parameter has no default.
\<close>

fun on_fail_loop :: "ref list \<Rightarrow> string \<Rightarrow> int option \<Rightarrow> launcher \<Rightarrow> outcome" where
  "on_fail_loop [] an max_retries s = Returned s"
| "on_fail_loop (c # cs) an max_retries s =
     (if an \<in> set (fallbacks (heap s c)) then
        (case map_of (methods (heap s c)) an of
           None \<Rightarrow> Raised (AttributeError OtherMessage) s
         | Some method \<Rightarrow>
             if list_ex (\<lambda>x. \<not> snd x) (parameters method)
             then Raised (ValueError (FallbackTakesArguments an (parameters method))) s
             else on_fail_loop cs an max_retries
                    (s\<lparr>heap := (heap s)(c := component_on_fail an max_retries (heap s c))\<rparr>))
      else Raised (ValueError (NonValidFallback an (node_name (heap s c))
                                 (fallbacks (heap s c)))) s)"

definition on_fail :: "launcher \<Rightarrow> string \<Rightarrow> int option \<Rightarrow> outcome" where
  "on_fail self an max_retries = on_fail_loop (components self) an max_retries self"

section \<open>Setting up the monitor and the event handlers\<close>

text \<open>
  \<open>_setup_component_events_handlers\<close>: the component's share of the component actions.
  Assigning \<open>comp.events_actions\<close> is modelled as storing the dictionary.
\<close>

definition setup_component_events_handlers :: "ref \<Rightarrow> launcher \<Rightarrow> launcher" where
  "setup_component_events_handlers c s =
     (if components_actions s = [] then s
      else
        let comp_dict =
              fold (\<lambda>item d.
                      fold (\<lambda>a d'. if node_name (heap s c) = parent_component a
                                    then update_dict_list d' (fst item) a else d')
                        (snd item) d)
                (components_actions s) []
        in if comp_dict \<noteq> []
           then s\<lparr>heap := (heap s)(c := (heap s c)\<lparr>comp_events_actions := comp_dict\<rparr>)\<rparr>
           else s)"

text \<open>
  \<open>_activate_components_action\<close>, over the items of the activation dictionary. For a
  component run in threads the entity is the launch action of \<open>Action(component.start)\<close>.
\<close>

fun activate_components_action :: "launcher \<Rightarrow> (ref \<times> bool) list \<Rightarrow> entity list" where
  "activate_components_action s [] = []"
| "activate_components_action s ((c, run_in_process) # rest) =
     (if run_in_process then start s (node_name (heap s c)) [] else [ComponentStartLaunch c])
     @ activate_components_action s rest"

text \<open>
  The inner loop of \<open>_setup_internal_events_handlers\<close>. \<open>entry_entities\<close> is what one
  action adds to the list of the event: a ROS launch action itself, the entities of a
  handler (a list, so it is appended with \<open>extend\<close>), or the launch action of the action.
\<close>

fun entry_entities ::
  "(string \<Rightarrow> attr option) \<Rightarrow> launcher \<Rightarrow> bool \<Rightarrow> entry \<Rightarrow> error + entity list" where
  "entry_entities attrs s nodes_in_processes (Ros r) = Inr [RosLaunchAction r]"
| "entry_entities attrs s nodes_in_processes (Act a) =
     (if component_action a \<and> nodes_in_processes then get_action_launch_entity attrs s a
      else Inr [ActionLaunch a])"

fun event_entities ::
  "(string \<Rightarrow> attr option) \<Rightarrow> launcher \<Rightarrow> bool \<Rightarrow> entry list \<Rightarrow> entity list \<Rightarrow> error + entity list" where
  "event_entities attrs s nodes_in_processes [] acc = Inr acc"
| "event_entities attrs s nodes_in_processes (x # xs) acc =
     (case entry_entities attrs s nodes_in_processes x of
        Inl e \<Rightarrow> Inl e
      | Inr entities \<Rightarrow> event_entities attrs s nodes_in_processes xs (acc @ entities))"

text \<open>
  The outer loop. \<open>entities_dict[event.name]\<close> is assigned a fresh list at the start of
  each iteration and read within the same iteration only, so the local dictionary carries
  nothing from one event to the next; the registered handler holds that list.
\<close>

fun internal_events_loop ::
  "(string \<Rightarrow> attr option) \<Rightarrow> bool \<Rightarrow> (event \<times> entry list) list \<Rightarrow> launcher \<Rightarrow> outcome" where
  "internal_events_loop attrs nodes_in_processes [] s = Returned s"
| "internal_events_loop attrs nodes_in_processes ((ev, acts) # rest) s =
     (case event_entities attrs s nodes_in_processes acts
             [LogInfo (''GOT TRIGGER FOR EVENT '' @ name ev)] of
        Inl e \<Rightarrow> Raised e s
      | Inr entities \<Rightarrow>
          internal_events_loop attrs nodes_in_processes rest
            (s\<lparr>description := description s @ [RegisterEventHandler (name ev) entities]\<rparr>))"

definition setup_internal_events_handlers ::
  "(string \<Rightarrow> attr option) \<Rightarrow> bool \<Rightarrow> launcher \<Rightarrow> outcome" where
  "setup_internal_events_handlers attrs nodes_in_processes s =
     (if ros_actions s = [] then Returned s
      else internal_events_loop attrs nodes_in_processes (ros_actions s) s)"

text \<open>
  \<open>_setup_monitor_node\<close>. \<open>len(set(xs)) != len(xs)\<close> compares the number of distinct
  elements with the length. The \<open>Monitor\<close> class is outside the file; constructing it is
  modelled as storing its arguments.
\<close>

definition setup_monitor_node :: "(string \<Rightarrow> attr option) \<Rightarrow> bool \<Rightarrow> launcher \<Rightarrow> outcome" where
  "setup_monitor_node attrs nodes_in_processes s =
     (let s1 = (if ros_actions s \<noteq> []
                then s\<lparr>internal_events := Some (map fst (ros_actions s)),
                       internal_event_names := Some (map (\<lambda>ev. name ev) (map fst (ros_actions s)))\<rparr>
                else s)
      in if ros_actions s \<noteq> []
            \<and> length (remdups (the (internal_event_names s1))) \<noteq> length (the (internal_event_names s1))
         then Raised (ValueError DuplicateEventsNames) s1
         else
           let services = filter (\<lambda>c. comp_run_type (heap s1 c) = SERVER) (components s1);
               action_comps = filter (\<lambda>c. comp_run_type (heap s1 c) = ACTION_SERVER) (components s1);
               names = map (\<lambda>c. node_name (heap s1 c)) (components s1)
           in if length (remdups names) \<noteq> length names
              then Raised (ValueError (DuplicateComponentNames names)) s1
              else
                let m = \<lparr> components_names = names,
                          enable_health_status_monitoring = enable_monitoring s1,
                          events_actions = monitor_actions s1,
                          events_to_emit = internal_events s1,
                          services_components = services,
                          action_servers_components = action_comps,
                          activate_on_start = map fst (components_to_activate_on_start s1) \<rparr>;
                    s2 = s1\<lparr>monitor_node := Some m,
                            description := description s1 @ [MonitorLaunchAction m (namespace s1)]\<rparr>;
                    s3 = s2\<lparr>description := description s2 @
                              [RegisterEventHandler ''activate_all''
                                 (activate_components_action s2 (components_to_activate_on_start s2))]\<rparr>
                in setup_internal_events_handlers attrs nodes_in_processes s3)"

section \<open>Launching: external processors, components, \<open>bringup\<close>\<close>

text \<open>
  \<open>_setup_external_processors\<close>. A component's external processors map a key to the
  names of its processing functions. The socket file of a processor is removed if it
  exists and bound again, and one listener per socket is submitted to the thread pool.
\<close>

definition sock_file :: "string \<Rightarrow> string \<Rightarrow> string \<Rightarrow> string" where
  "sock_file nn key processor = ''/tmp/'' @ nn @ ''_'' @ key @ ''_'' @ processor @ ''.socket''"

definition bind_processor :: "string \<Rightarrow> launcher \<Rightarrow> launcher" where
  "bind_processor f s =
     s\<lparr>bound_sockets := removeAll f (bound_sockets s) @ [f],
       thread_pool := Some (the (thread_pool s) @ [f])\<rparr>"

definition setup_external_processors :: "ref \<Rightarrow> launcher \<Rightarrow> outcome" where
  "setup_external_processors c s =
     (if external_processors (heap s c) = [] then Returned s
      else
        let s1 = (if thread_pool s = None then s\<lparr>thread_pool := Some []\<rparr> else s)
        in if \<not> msgpack_installed s1 then Raised (ModuleNotFoundError MsgpackNotInstalled) s1
           else Returned
                  (fold (\<lambda>item s'.
                           fold (\<lambda>processor s''.
                                   bind_processor
                                     (sock_file (node_name (heap s c)) (fst item) processor) s'')
                             (snd item) s')
                     (external_processors (heap s c)) s1))"

text \<open>
  \<open>_setup_component_in_process\<close>. \<open>component._update_cmd_args_list()\<close> belongs to
  \<open>BaseComponent\<close>; the model reads the arguments it leaves in \<open>launch_cmd_args\<close>.
\<close>

definition setup_component_in_process ::
  "ref \<Rightarrow> string \<Rightarrow> string \<Rightarrow> string \<Rightarrow> launcher \<Rightarrow> outcome" where
  "setup_component_in_process c pkg_name executable_name ros_log_level s =
     (case setup_external_processors c s of
        Raised e s' \<Rightarrow> Raised e s'
      | Returned s' \<Rightarrow>
          let nn = node_name (heap s' c);
              arguments = launch_cmd_args (heap s' c) @ [''--ros-args'', ''--log-level'', ros_log_level];
              new_node = (if is_managed_entity (heap s' c)
                          then LifecycleNodeLaunchAction pkg_name (namespace s') nn executable_name arguments
                          else NodeLaunchAction pkg_name (namespace s') nn executable_name arguments)
          in Returned (s'\<lparr>launch_group := launch_group s' @ [new_node]\<rparr>))"

definition setup_component_in_thread :: "ref \<Rightarrow> string \<Rightarrow> launcher \<Rightarrow> launcher" where
  "setup_component_in_thread c ros_log_level s =
     s\<lparr>launch_group := launch_group s
          @ [ComponentLaunchAction c (namespace s) (node_name (heap s c)) ros_log_level]\<rparr>"

text \<open>
  \<open>_start_ros_launch\<close>: the launch service is created, given the description and run.
  \<open>ls\<close> is \<open>None\<close> as long as nothing was launched.
\<close>

definition start_ros_launch :: "launcher \<Rightarrow> launcher" where
  "start_ros_launch s = s\<lparr>ls := Some (description s)\<rparr>"

text \<open>\<open>Launcher.configure\<close>: one component by name, or all of them.\<close>

definition configure :: "launcher \<Rightarrow> string \<Rightarrow> string option \<Rightarrow> launcher" where
  "configure self cfg component_name =
     (if truthy component_name
      then fold (\<lambda>c s. if node_name (heap s c) = the component_name
                        then s\<lparr>heap := (heap s)(c := configure_component cfg (heap s c))\<rparr> else s)
             (components self) self
      else fold (\<lambda>c s. s\<lparr>heap := (heap s)(c := configure_component cfg (heap s c))\<rparr>)
             (components self) self)"

text \<open>
  The loop of \<open>bringup\<close> over \<open>enumerate(self.components)\<close>; \<open>self._pkg_executable[idx]\<close>
  raises \<open>IndexError\<close> out of range.
  Of \<open>bringup\<close> itself the model leaves out the process title, the log lines and the
  shutdown of the thread pool after the launch service has returned.
\<close>

fun add_components_to_launcher :: "string \<Rightarrow> nat \<Rightarrow> ref list \<Rightarrow> launcher \<Rightarrow> outcome" where
  "add_components_to_launcher ros_log_level idx [] s = Returned s"
| "add_components_to_launcher ros_log_level idx (c # cs) s =
     (if length (pkg_executable s) \<le> idx then Raised (IndexError OtherMessage) s
      else
        let pkg_name = fst (pkg_executable s ! idx);
            executable_name = snd (pkg_executable s ! idx)
        in if truthy pkg_name \<and> truthy executable_name
           then (case setup_component_in_process c (the pkg_name) (the executable_name)
                        ros_log_level s of
                   Raised e s' \<Rightarrow> Raised e s'
                 | Returned s' \<Rightarrow> add_components_to_launcher ros_log_level (Suc idx) cs s')
           else add_components_to_launcher ros_log_level (Suc idx) cs
                  (setup_component_in_thread c ros_log_level s))"

definition bringup ::
  "(string \<Rightarrow> attr option) \<Rightarrow> launcher \<Rightarrow> string option \<Rightarrow> bool \<Rightarrow> bool \<Rightarrow> string \<Rightarrow> outcome" where
  "bringup attrs self cfg introspect launch_debug ros_log_level =
     (if components self = [] then Raised (ValueError NoComponentsAdded) self
      else
        let s1 = (if truthy cfg then configure self (the cfg) None else self)
        in case setup_monitor_node attrs True s1 of
             Raised e s2 \<Rightarrow> Raised e s2
           | Returned s2 \<Rightarrow>
               let s3 = fold setup_component_events_handlers (components s2) s2
               in case add_components_to_launcher ros_log_level 0 (components s3) s3 of
                    Raised e s4 \<Rightarrow> Raised e s4
                  | Returned s4 \<Rightarrow>
                      Returned (start_ros_launch
                                  (s4\<lparr>description := description s4 @ [GroupAction (launch_group s4)]\<rparr>)))"

section \<open>The external-processor worker\<close>

text \<open>
  \<open>conn.sendall(x)\<close> needs a bytes-like object; any other Python value is a \<open>TypeError\<close>.
\<close>

fun sendall :: "pyval \<Rightarrow> error + bytes" where
  "sendall (PBytes b) = Inr b"
| "sendall v = Inl (TypeError OtherMessage)"

text \<open>
  \<open>__listen_for_external_processing\<close>, after the connection was accepted. The loop has no
  exit; the model runs it over the results of the successive \<open>conn.recv(1024)\<close> calls observed
  so far and returns what was sent back, in order, and the exception that ended the worker,
  if one did. The serializer is the \<open>msgpack\<close> library, outside the repository: \<open>unpackb\<close>
  and \<open>packb\<close> are parameters. The body is
  \<^verbatim>\<open>
  data = conn.recv(1024)
  if not data: continue
  data = msgpack.unpackb(data)
  result = func(data)
  result = msgpack.packb(result)
  conn.sendall(data)
  \<close>
\<close>

fun listen_for_external_processing ::
  "(bytes \<Rightarrow> error + pyval) \<Rightarrow> (pyval \<Rightarrow> error + bytes) \<Rightarrow> (pyval \<Rightarrow> error + pyval) \<Rightarrow>
   bytes list \<Rightarrow> bytes list \<times> error option" where
  "listen_for_external_processing unpackb packb func [] = ([], None)"
| "listen_for_external_processing unpackb packb func (received # rest) =
     (if received = [] then listen_for_external_processing unpackb packb func rest
      else
        (case unpackb received of
           Inl e \<Rightarrow> ([], Some e)
         | Inr data \<Rightarrow>
             (case func data of
                Inl e \<Rightarrow> ([], Some e)
              | Inr result \<Rightarrow>
                  (case packb result of
                     Inl e \<Rightarrow> ([], Some e)
                   | Inr packed \<Rightarrow>
                       (case sendall data of
                          Inl e \<Rightarrow> ([], Some e)
                        | Inr sent \<Rightarrow>
                            (sent # fst (listen_for_external_processing unpackb packb func rest),
                             snd (listen_for_external_processing unpackb packb func rest)))))))"

text \<open>
  What the claim describes instead: the serialized result of the user function is the
  response. This second definition follows the specification's words, for comparison.
\<close>

fun spec_listen_for_external_processing ::
  "(bytes \<Rightarrow> error + pyval) \<Rightarrow> (pyval \<Rightarrow> error + bytes) \<Rightarrow> (pyval \<Rightarrow> error + pyval) \<Rightarrow>
   bytes list \<Rightarrow> bytes list \<times> error option" where
  "spec_listen_for_external_processing unpackb packb func [] = ([], None)"
| "spec_listen_for_external_processing unpackb packb func (received # rest) =
     (if received = [] then spec_listen_for_external_processing unpackb packb func rest
      else
        (case unpackb received of
           Inl e \<Rightarrow> ([], Some e)
         | Inr data \<Rightarrow>
             (case func data of
                Inl e \<Rightarrow> ([], Some e)
              | Inr result \<Rightarrow>
                  (case packb result of
                     Inl e \<Rightarrow> ([], Some e)
                   | Inr packed \<Rightarrow>
                       (packed # fst (spec_listen_for_external_processing unpackb packb func rest),
                        snd (spec_listen_for_external_processing unpackb packb func rest))))))"

text \<open>
  A fragment of the msgpack wire format, enough to run the worker on small payloads:
  \<open>nil\<close> is the byte \<open>0xc0\<close>, an integer from 0 to 127 is one byte (positive fixint), an
  integer from -32 to -1 is one byte from \<open>0xe0\<close> (negative fixint), and a byte string
  shorter than 256 bytes is \<open>0xc4\<close>, its length, and its bytes (bin 8). An empty input, the
  unused byte \<open>0xc1\<close> and a bin 8 whose length byte disagrees with what follows make the
  library raise. For every other value and payload the result is \<open>Inl OutsideFragment\<close>:
  the library encodes and decodes them, and the fragment says nothing about them.
\<close>

fun msgpack_packb :: "pyval \<Rightarrow> error + bytes" where
  "msgpack_packb PNone = Inr [0xc0]"
| "msgpack_packb (PInt n) =
     (if - 32 \<le> n \<and> n < 128 then Inr [word_of_int n] else Inl OutsideFragment)"
| "msgpack_packb (PBytes b) =
     (if length b < 256 then Inr (0xc4 # of_nat (length b) # b) else Inl OutsideFragment)"
| "msgpack_packb v = Inl OutsideFragment"

fun msgpack_unpackb :: "bytes \<Rightarrow> error + pyval" where
  "msgpack_unpackb [] = Inl (UnpackError OtherMessage)"
| "msgpack_unpackb [b] =
     (if b = 0xc0 then Inr PNone
      else if b < 0x80 then Inr (PInt (uint b))
      else if 0xe0 \<le> b then Inr (PInt (sint b))
      else if b = 0xc1 then Inl (UnpackError OtherMessage)
      else Inl OutsideFragment)"
| "msgpack_unpackb (t # n # rest) =
     (if t = 0xc4
      then (if length rest = unat n then Inr (PBytes rest) else Inl (UnpackError OtherMessage))
      else Inl OutsideFragment)"

section \<open>Example configurations and vocabulary of the properties\<close>

text \<open>
  Component objects: \<open>camera\<close> at reference 0, with a fallback method \<open>restart\<close>
  without parameters and a fallback method \<open>reconfigure\<close> with a required parameter, and
  \<open>planner\<close> at every other reference, which declares no fallback.
\<close>

definition example_component :: "string \<Rightarrow> component" where
  "example_component nn =
     \<lparr> node_name = nn, comp_run_type = TIMED, is_managed_entity = True,
       methods = [(''restart'', \<lparr>is_fallback = True, parameters = []\<rparr>),
                  (''reconfigure'', \<lparr>is_fallback = True, parameters = [(''new_config'', False)]\<rparr>),
                  (''start'', \<lparr>is_fallback = False, parameters = []\<rparr>)],
       external_processors = [], launch_cmd_args = [],
       comp_config_file = None, configured_with = [], on_fail_policy = None,
       comp_events_actions = [] \<rparr>"

definition example_objects :: "ref \<Rightarrow> component" where
  "example_objects r =
     (if r = 0 then example_component ''camera''
      else (example_component ''planner'')
             \<lparr>methods := [(''start'', \<lparr>is_fallback = False, parameters = []\<rparr>)]\<rparr>)"

definition example_launcher :: "bool \<Rightarrow> launcher" where
  "example_launcher monitoring =
     state_of (add_pkg (Launcher_init [] None monitoring True example_objects)
                 [0] None (Some ''executable'') None False True None)"

definition component_method_action :: "string \<Rightarrow> string \<Rightarrow> ref \<Rightarrow> action" where
  "component_method_action an parent r =
     \<lparr> action_name = an, parent_component = parent, component_action = True,
       monitor_action = False, executable_self = r, args = [], kwargs = [] \<rparr>"

definition example_event :: "nat \<Rightarrow> string \<Rightarrow> event" where
  "example_event i nm = \<lparr> event_id = i, name = nm \<rparr>"

definition increment :: "pyval \<Rightarrow> error + pyval" where
  "increment v = (case v of PInt n \<Rightarrow> Inr (PInt (n + 1)) | _ \<Rightarrow> Inl (TypeError OtherMessage))"

text \<open>
  Launchers after one \<open>add_pkg\<close> call on a fresh launcher: two events with the same name
  that carry component actions only; two components with the same name together with two
  events with the same name that carry ROS launch actions; two components with the same
  name and no events.
\<close>

definition same_name_component_events :: launcher where
  "same_name_component_events =
     state_of (add_pkg (Launcher_init [] None True True example_objects)
        [0] None (Some ''executable'')
        (Some [(example_event 1 ''low_battery'', Single (Act (component_method_action ''restart'' ''camera'' 0))),
               (example_event 2 ''low_battery'', Single (Act (component_method_action ''stop'' ''camera'' 0)))])
        False True None)"

definition duplicate_names_and_events :: launcher where
  "duplicate_names_and_events =
     state_of (add_pkg (Launcher_init [] None True True example_objects)
        [1, 2] None (Some ''executable'')
        (Some [(example_event 1 ''low_battery'', Single (Ros 7)),
               (example_event 2 ''low_battery'', Many [Ros 8, Ros 9])])
        False True None)"

definition duplicate_component_names :: launcher where
  "duplicate_component_names =
     state_of (add_pkg (Launcher_init [] None True True example_objects)
        [1, 2] None (Some ''executable'') None False True None)"

text \<open>
  An events/actions dictionary with one event and one component action: \<open>method\<close> of the
  component object \<open>r\<close>, whose node name is \<open>parent\<close>.
\<close>

definition one_component_action :: "string \<Rightarrow> string \<Rightarrow> ref \<Rightarrow> (event \<times> raw_action) list" where
  "one_component_action method parent r =
     [(example_event 1 ''low_battery'', Single (Act (component_method_action method parent r)))]"

text \<open>A launcher with both example components, \<open>camera\<close> first.\<close>

definition two_component_launcher :: launcher where
  "two_component_launcher =
     state_of (add_pkg (Launcher_init [] None True True example_objects)
        [0, 1] None (Some ''executable'') None False True None)"

text \<open>
  Vocabulary for the order of actions. \<open>actions_of d ev\<close> is the list a dictionary holds
  for an event (empty when the event is not a key). \<open>registered_for ev evs\<close> are the
  actions that an events/actions dictionary \<open>evs\<close> gives for \<open>ev\<close>, in the order of the
  dictionary and of its lists; \<open>ros_entries\<close>, \<open>component_entries\<close> and \<open>monitor_entries\<close>
  select from such a list, in order, what each branch of the registration loop stores.
\<close>

definition actions_of :: "('k \<times> 'v list) list \<Rightarrow> 'k \<Rightarrow> 'v list" where
  "actions_of d k = (case map_of d k of None \<Rightarrow> [] | Some xs \<Rightarrow> xs)"

fun registered_for :: "event \<Rightarrow> (event \<times> raw_action) list \<Rightarrow> entry list" where
  "registered_for e [] = []"
| "registered_for e ((ev, raw) # rest) =
     (if ev = e then action_set raw else []) @ registered_for e rest"

fun ros_entries :: "entry list \<Rightarrow> entry list" where
  "ros_entries [] = []"
| "ros_entries (Ros r # xs) = Ros r # ros_entries xs"
| "ros_entries (Act a # xs) = ros_entries xs"

fun component_entries :: "entry list \<Rightarrow> action list" where
  "component_entries [] = []"
| "component_entries (Ros r # xs) = component_entries xs"
| "component_entries (Act a # xs) =
     (if component_action a then a # component_entries xs else component_entries xs)"

fun monitor_entries :: "entry list \<Rightarrow> action list" where
  "monitor_entries [] = []"
| "monitor_entries (Ros r # xs) = monitor_entries xs"
| "monitor_entries (Act a # xs) =
     (if \<not> component_action a \<and> monitor_action a then a # monitor_entries xs
      else monitor_entries xs)"

text \<open>
  The handler that \<open>_setup_internal_events_handlers\<close> registers for an event whose
  actions are ROS launch actions: the log action, then the actions in the order of the list.
\<close>

fun is_ros :: "entry \<Rightarrow> bool" where
  "is_ros (Ros r) = True"
| "is_ros (Act a) = False"

fun ros_entity :: "entry \<Rightarrow> entity" where
  "ros_entity (Ros r) = RosLaunchAction r"
| "ros_entity (Act a) = ActionLaunch a"

definition event_handler :: "event \<times> entry list \<Rightarrow> entity" where
  "event_handler item =
     RegisterEventHandler (name (fst item))
       (LogInfo (''GOT TRIGGER FOR EVENT '' @ name (fst item)) # map ros_entity (snd item))"

definition ros_only :: "(event \<times> entry list) list \<Rightarrow> bool" where
  "ros_only d = list_all (\<lambda>item. list_all is_ros (snd item)) d"

text \<open>
  A launcher on which one \<open>add_pkg\<close> call has registered two ROS launch actions for the
  event \<open>low_battery\<close>.
\<close>

definition launcher_with_ros_actions :: launcher where
  "launcher_with_ros_actions =
     state_of (add_pkg (Launcher_init [] None True True example_objects)
        [0] None (Some ''executable'')
        (Some [(example_event 1 ''low_battery'', Many [Ros 7, Ros 8])])
        False True None)"

text \<open>
  The first component action that the registration loop rejects: the first one, in the
  order of the dictionary and of its lists, whose component is not in the list of
  components given to the loop.
\<close>

fun first_rejected_action :: "ref list \<Rightarrow> entry list \<Rightarrow> action option" where
  "first_rejected_action cl [] = None"
| "first_rejected_action cl (Ros r # xs) = first_rejected_action cl xs"
| "first_rejected_action cl (Act a # xs) =
     (if component_action a \<and> executable_self a \<notin> set cl then Some a
      else first_rejected_action cl xs)"

fun first_rejected :: "ref list \<Rightarrow> (event \<times> raw_action) list \<Rightarrow> (event \<times> action) option" where
  "first_rejected cl [] = None"
| "first_rejected cl ((ev, raw) # rest) =
     (case first_rejected_action cl (action_set raw) of
        Some a \<Rightarrow> Some (ev, a)
      | None \<Rightarrow> first_rejected cl rest)"

text \<open>
  The two checks that the loop of \<open>on_fail\<close> makes on a component before it installs the
  fallback: the action name is among the component's fallbacks, and no parameter of the
  method it names lacks a default.
\<close>

definition fallback_accepted :: "component \<Rightarrow> string \<Rightarrow> bool" where
  "fallback_accepted c an =
     (an \<in> set (fallbacks c)
      \<and> (case map_of (methods c) an of
            None \<Rightarrow> False
          | Some m \<Rightarrow> \<not> list_ex (\<lambda>x. \<not> snd x) (parameters m)))"

text \<open>
  Two component actions on \<open>planner\<close>, and the events/actions dictionary of a second
  registration call that gives them, with a ROS launch action between them, for the event
  \<open>low_battery\<close>.
\<close>

definition second_registration :: "(event \<times> raw_action) list" where
  "second_registration =
     [(example_event 1 ''low_battery'',
       Many [Act (component_method_action ''restart'' ''planner'' 1), Ros 9,
             Act (component_method_action ''stop'' ''planner'' 1)])]"

section \<open>Properties\<close>

text \<open>
  C7. For every component name the built-in lifecycle handlers give exactly these ordered
  transition sequences, on that one node: \<open>start\<close> gives configure then activate,
  \<open>stop\<close> gives deactivate only, \<open>restart\<close> gives deactivate then activate. The result
  depends on nothing but the name: neither the launcher nor the extra keyword arguments
  change it.
\<close>

theorem lifecycle_handlers_sequences:
  "start self nn kw = [LifecycleTransition [nn] [TRANSITION_CONFIGURE, TRANSITION_ACTIVATE]]
   \<and> stop self nn kw = [LifecycleTransition [nn] [TRANSITION_DEACTIVATE]]
   \<and> restart self nn kw = [LifecycleTransition [nn] [TRANSITION_DEACTIVATE, TRANSITION_ACTIVATE]]
   \<and> start self nn kw = start self' nn kw'
   \<and> stop self nn kw = stop self' nn kw'
   \<and> restart self nn kw = restart self' nn kw'"
  by (simp add: start_def stop_def restart_def)

subsection \<open>The example launcher\<close>

lemma example_launcher_components:
  "components (example_launcher m) = [0] \<and> heap (example_launcher m) = example_objects"
  by (simp add: example_launcher_def add_pkg_def add_pkg_components_def add_pkg_activation_def Launcher_init_def Let_def)

subsection \<open>Dispatch of a component action\<close>

text \<open>
  After the search loop \<open>comp\<close> is \<open>None\<close> only when there was nothing to iterate over;
  when no name matches, it is the last component of the list.
\<close>

lemma find_component_not_None:
  "cs \<noteq> [] \<or> cur \<noteq> None \<Longrightarrow> find_component h pc cur cs \<noteq> None"
  by (induction cs arbitrary: cur) auto

lemma find_component_no_match:
  "pc \<notin> set (map (\<lambda>c. node_name (h c)) cs) \<Longrightarrow> cs \<noteq> [] \<Longrightarrow>
   find_component h pc cur cs = Some (last cs)"
  by (induction cs arbitrary: cur) auto

text \<open>
  C2. The claim: when no component of the launcher's list has the node name the action
  declares as its parent component, dispatch raises \<open>InvalidAction\<close> and the handler is not
  invoked. The code does so only for an empty component list. Here the launcher holds the
  one component \<open>camera\<close> and the action asks for \<open>restart\<close> on \<open>planner\<close>: dispatch
  returns the handler's transition sequence for \<open>planner\<close>.
\<close>

theorem dispatch_unknown_component_invokes_handler:
  "''planner'' \<notin> set (map (\<lambda>c. node_name (heap (example_launcher True) c))
                          (components (example_launcher True)))
   \<and> get_action_launch_entity Launcher_attrs (example_launcher True)
        (component_method_action ''restart'' ''planner'' 1)
      = Inr [LifecycleTransition [''planner''] [TRANSITION_DEACTIVATE, TRANSITION_ACTIVATE]]"
  by (simp add: get_action_launch_entity_def Launcher_attrs_def handler_attr_def
        bind_handler_def restart_def component_method_action_def example_launcher_components
        example_objects_def example_component_def)

text \<open>
  C8. When the attribute named by the action does not exist, or exists without the
  handler capability, dispatch raises \<open>InvalidAction\<close>; and the attribute is not invoked:
  whatever calling it would do, the outcome of dispatch is the same.
\<close>

theorem dispatch_requires_action_handler:
  assumes "attrs (action_name a) = None
           \<or> (\<exists>m. attrs (action_name a) = Some m \<and> has_action_handler m = False)"
  shows "(\<exists>msg. get_action_launch_entity attrs self a = Inl (InvalidAction msg))
         \<and> (\<forall>m f. attrs (action_name a) = Some m \<longrightarrow>
               get_action_launch_entity (attrs(action_name a \<mapsto> m\<lparr>call := f\<rparr>)) self a
               = get_action_launch_entity attrs self a)"
  using assms by (auto simp: get_action_launch_entity_def)

theorem dispatch_requires_action_handler_witness:
  "Launcher_attrs (action_name (component_method_action ''bringup'' ''camera'' 0)) = Some plain_attr
   \<and> has_action_handler plain_attr = False
   \<and> get_action_launch_entity Launcher_attrs (example_launcher True)
        (component_method_action ''bringup'' ''camera'' 0)
      = Inl (InvalidAction (NotAValidEventHandler ''bringup''))
   \<and> get_action_launch_entity
        (Launcher_attrs(''bringup'' \<mapsto> plain_attr\<lparr>call := bind_handler restart\<rparr>))
        (example_launcher True) (component_method_action ''bringup'' ''camera'' 0)
      = Inl (InvalidAction (NotAValidEventHandler ''bringup''))"
  using dispatch_requires_action_handler
          [of Launcher_attrs "component_method_action ''bringup'' ''camera'' 0" "example_launcher True"]
  by (simp add: get_action_launch_entity_def Launcher_attrs_def Launcher_plain_names_def
        plain_attr_def component_method_action_def)

lemma dispatch_unavailable_attribute:
  "get_action_launch_entity Launcher_attrs (example_launcher True)
        (component_method_action ''reset'' ''camera'' 0)
      = Inl (InvalidAction (UnavailableComponentAction ''camera'' ''reset''))"
  by (simp add: get_action_launch_entity_def Launcher_attrs_def Launcher_plain_names_def
        component_method_action_def)

subsection \<open>The external-processor worker\<close>

text \<open>
  What the worker sends is \<open>data\<close>, the decoded request, never the packed result: a
  decoded value that is not a byte string ends the worker with a \<open>TypeError\<close>, and a byte
  string is sent back as it was decoded.
\<close>

lemma worker_sends_decoded_request:
  assumes "received \<noteq> []" "unpackb received = Inr data" "func data = Inr result"
    "packb result = Inr packed"
  shows "listen_for_external_processing unpackb packb func [received] =
           (case data of PBytes b \<Rightarrow> ([b], None) | _ \<Rightarrow> ([], Some (TypeError OtherMessage)))"
  using assms by (cases data) simp_all

text \<open>
  C1. The claim: each non-empty payload is deserialized, given to the user function, and
  the serialized result is sent back. On the one-byte payload that encodes 5, with a user
  function that adds one, the worker sends nothing and ends with a \<open>TypeError\<close>, where the
  behaviour the claim describes sends the byte that encodes 6.
\<close>

theorem worker_does_not_send_result:
  "listen_for_external_processing msgpack_unpackb msgpack_packb increment [[0x05]]
     = ([], Some (TypeError OtherMessage))
   \<and> spec_listen_for_external_processing msgpack_unpackb msgpack_packb increment [[0x05]]
     = ([[0x06]], None)"
  by (simp add: increment_def)

lemma worker_echoes_bytes_request:
  "listen_for_external_processing msgpack_unpackb msgpack_packb Inr [[0xc4, 2, 7, 9]]
     = ([[7, 9]], None)
   \<and> spec_listen_for_external_processing msgpack_unpackb msgpack_packb Inr [[0xc4, 2, 7, 9]]
     = ([[0xc4, 2, 7, 9]], None)"
  by simp

subsection \<open>Unique names at setup\<close>

lemma remdups_length_distinct: "length (remdups xs) \<noteq> length xs \<longleftrightarrow> \<not> distinct xs"
  by (metis distinct_remdups distinct_remdups_id length_remdups_eq)

lemma same_name_not_distinct:
  assumes "e1 \<in> set xs" "e2 \<in> set xs" "e1 \<noteq> e2" "f e1 = f e2"
  shows "\<not> distinct (map f xs)"
  using assms by (auto simp: distinct_map inj_on_def)

lemma fold_heap_update_fields:
  "components (fold (\<lambda>c s. if P s c then s\<lparr>heap := H s c\<rparr> else s) cs s) = components s
   \<and> ros_actions (fold (\<lambda>c s. if P s c then s\<lparr>heap := H s c\<rparr> else s) cs s) = ros_actions s
   \<and> description (fold (\<lambda>c s. if P s c then s\<lparr>heap := H s c\<rparr> else s) cs s) = description s
   \<and> launch_group (fold (\<lambda>c s. if P s c then s\<lparr>heap := H s c\<rparr> else s) cs s) = launch_group s
   \<and> monitor_node (fold (\<lambda>c s. if P s c then s\<lparr>heap := H s c\<rparr> else s) cs s) = monitor_node s
   \<and> ls (fold (\<lambda>c s. if P s c then s\<lparr>heap := H s c\<rparr> else s) cs s) = ls s"
  by (induction cs arbitrary: s) auto

lemma configure_fields:
  "components (configure s cfg n) = components s
   \<and> ros_actions (configure s cfg n) = ros_actions s
   \<and> description (configure s cfg n) = description s
   \<and> launch_group (configure s cfg n) = launch_group s
   \<and> monitor_node (configure s cfg n) = monitor_node s
   \<and> ls (configure s cfg n) = ls s"
proof (cases "truthy n")
  case True
  then show ?thesis
    using fold_heap_update_fields
      [of "\<lambda>s c. node_name (heap s c) = the n"
          "\<lambda>s c. (heap s)(c := configure_component cfg (heap s c))" "components s" s]
    by (simp add: configure_def)
next
  case False
  then show ?thesis
    using fold_heap_update_fields
      [of "\<lambda>s c. True"
          "\<lambda>s c. (heap s)(c := configure_component cfg (heap s c))" "components s" s]
    by (simp add: configure_def)
qed

lemma fold_configure_node_name:
  "node_name (heap (fold (\<lambda>c s. if P s c then s\<lparr>heap := (heap s)(c := configure_component cfg (heap s c))\<rparr> else s) cs s) r)
     = node_name (heap s r)"
  by (induction cs arbitrary: s) (auto simp: configure_component_def)

lemma configure_node_name: "node_name (heap (configure s cfg n) r) = node_name (heap s r)"
proof (cases "truthy n")
  case True
  then show ?thesis
    using fold_configure_node_name [of "\<lambda>s c. node_name (heap s c) = the n" cfg "components s" s r]
    by (simp add: configure_def)
next
  case False
  then show ?thesis
    using fold_configure_node_name [of "\<lambda>s c. True" cfg "components s" s r]
    by (simp add: configure_def)
qed

lemma not_distinct_remdups_length: "\<not> distinct xs \<Longrightarrow> length (remdups xs) \<noteq> length xs"
  using remdups_length_distinct [of xs] by simp

lemma distinct_remdups_length: "distinct xs \<Longrightarrow> length (remdups xs) = length xs"
  by (simp add: distinct_remdups_id)

lemma setup_monitor_node_duplicate_events:
  assumes "\<not> distinct (map name (map fst (ros_actions s)))"
  shows "setup_monitor_node attrs nip s =
           Raised (ValueError DuplicateEventsNames)
             (s\<lparr>internal_events := Some (map fst (ros_actions s)),
                internal_event_names := Some (map name (map fst (ros_actions s)))\<rparr>)"
proof -
  from assms have ne: "ros_actions s \<noteq> []" by auto
  have l: "length (remdups (map name (map fst (ros_actions s))))
                   \<noteq> length (map name (map fst (ros_actions s)))"
    by (rule not_distinct_remdups_length [OF assms])
  show ?thesis
    unfolding setup_monitor_node_def Let_def
    using ne l by simp
qed

lemma setup_monitor_node_duplicate_components:
  assumes "\<not> distinct (map (\<lambda>c. node_name (heap s c)) (components s))"
    and "distinct (map name (map fst (ros_actions s)))"
  shows "raised (setup_monitor_node attrs nip s) =
           Some (ValueError (DuplicateComponentNames (map (\<lambda>c. node_name (heap s c)) (components s))))
         \<and> description (state_of (setup_monitor_node attrs nip s)) = description s
         \<and> launch_group (state_of (setup_monitor_node attrs nip s)) = launch_group s
         \<and> monitor_node (state_of (setup_monitor_node attrs nip s)) = monitor_node s
         \<and> ls (state_of (setup_monitor_node attrs nip s)) = ls s"
proof -
  let ?names = "map (\<lambda>c. node_name (heap s c)) (components s)"
  have a: "length (remdups ?names) \<noteq> length ?names"
    by (rule not_distinct_remdups_length [OF assms(1)])
  have b: "length (remdups (map name (map fst (ros_actions s))))
                   = length (map name (map fst (ros_actions s)))"
    by (rule distinct_remdups_length [OF assms(2)])
  show ?thesis
  proof (cases "ros_actions s = []")
    case True
    with a show ?thesis unfolding setup_monitor_node_def Let_def by simp
  next
    case False
    with a b show ?thesis unfolding setup_monitor_node_def Let_def by simp
  qed
qed

lemma bringup_monitor_raises:
  assumes "components s \<noteq> []"
    and "setup_monitor_node attrs True (if truthy cfg then configure s (the cfg) None else s) = Raised e s2"
  shows "bringup attrs s cfg introspect dbg lvl = Raised e s2"
proof -
  have "bringup attrs s cfg introspect dbg lvl =
        (case setup_monitor_node attrs True (if truthy cfg then configure s (the cfg) None else s) of
           Raised e s2 \<Rightarrow> Raised e s2
         | Returned s2 \<Rightarrow>
               let s3 = fold setup_component_events_handlers (components s2) s2
               in case add_components_to_launcher lvl 0 (components s3) s3 of
                    Raised e s4 \<Rightarrow> Raised e s4
                  | Returned s4 \<Rightarrow>
                      Returned (start_ros_launch
                                  (s4\<lparr>description := description s4 @ [GroupAction (launch_group s4)]\<rparr>)))"
    unfolding bringup_def using assms(1) by (simp only: if_False Let_def)
  then show ?thesis by (simp only: assms(2) outcome.case)
qed

text \<open>
  C3, as amended. The name check of \<open>_setup_monitor_node\<close> covers the internal events:
  the keys of \<open>_ros_actions\<close>, the events that carry a ROS launch action. When two
  different events among them share a name, \<open>_setup_monitor_node\<close> raises the
  duplicate-names \<open>ValueError\<close> before the monitor is created and before any event handler
  is registered, and \<open>bringup\<close> ends with a \<open>ValueError\<close> without launching: the launch
  description, the launch group and the lists of both events are left as they were.
\<close>

theorem duplicate_internal_event_names_rejected:
  assumes "e1 \<in> set (map fst (ros_actions s))" "e2 \<in> set (map fst (ros_actions s))"
    "e1 \<noteq> e2" "name e1 = name e2"
  shows "raised (setup_monitor_node attrs nip s) = Some (ValueError DuplicateEventsNames)
         \<and> description (state_of (setup_monitor_node attrs nip s)) = description s
         \<and> monitor_node (state_of (setup_monitor_node attrs nip s)) = monitor_node s
         \<and> ros_actions (state_of (setup_monitor_node attrs nip s)) = ros_actions s
         \<and> (raised (bringup attrs s cfg introspect dbg lvl) = Some (ValueError NoComponentsAdded)
            \<or> raised (bringup attrs s cfg introspect dbg lvl) = Some (ValueError DuplicateEventsNames))
         \<and> description (state_of (bringup attrs s cfg introspect dbg lvl)) = description s
         \<and> launch_group (state_of (bringup attrs s cfg introspect dbg lvl)) = launch_group s
         \<and> ros_actions (state_of (bringup attrs s cfg introspect dbg lvl)) = ros_actions s
         \<and> ls (state_of (bringup attrs s cfg introspect dbg lvl)) = ls s"
proof -
  have nd: "\<not> distinct (map name (map fst (ros_actions s)))"
    by (rule same_name_not_distinct [OF assms])
  have m: "setup_monitor_node attrs nip s =
           Raised (ValueError DuplicateEventsNames)
             (s\<lparr>internal_events := Some (map fst (ros_actions s)),
                internal_event_names := Some (map name (map fst (ros_actions s)))\<rparr>)"
    by (rule setup_monitor_node_duplicate_events [OF nd])
  define s1 where "s1 = (if truthy cfg then configure s (the cfg) None else s)"
  have f: "ros_actions s1 = ros_actions s" "description s1 = description s"
    "launch_group s1 = launch_group s" "ls s1 = ls s"
    by (simp_all add: s1_def configure_fields)
  have nd1: "\<not> distinct (map name (map fst (ros_actions s1)))"
    unfolding f(1) by (rule nd)
  have m1: "setup_monitor_node attrs True s1 =
           Raised (ValueError DuplicateEventsNames)
             (s1\<lparr>internal_events := Some (map fst (ros_actions s1)),
                 internal_event_names := Some (map name (map fst (ros_actions s1)))\<rparr>)"
    by (rule setup_monitor_node_duplicate_events [OF nd1])
  show ?thesis
  proof (cases "components s = []")
    case True
    then have "bringup attrs s cfg introspect dbg lvl = Raised (ValueError NoComponentsAdded) s"
      by (simp add: bringup_def)
    with m show ?thesis by simp
  next
    case False
    have "bringup attrs s cfg introspect dbg lvl =
           Raised (ValueError DuplicateEventsNames)
             (s1\<lparr>internal_events := Some (map fst (ros_actions s1)),
                 internal_event_names := Some (map name (map fst (ros_actions s1)))\<rparr>)"
      unfolding s1_def by (rule bringup_monitor_raises [OF False m1 [unfolded s1_def]])
    with m f show ?thesis by simp
  qed
qed

text \<open>
  C4, as amended. When two components of the launcher share a node name, \<open>bringup\<close>
  ends with a \<open>ValueError\<close> and launches nothing: the launch group and the description
  are unchanged and no launch service was started. The error is the one that lists the
  component names, the duplicate among them, whenever the names of the internal events
  are unique; otherwise the earlier check of the event names raises first.
\<close>

theorem duplicate_component_names_rejected:
  assumes "\<not> distinct (map (\<lambda>c. node_name (heap s c)) (components s))"
  shows "(raised (bringup attrs s cfg introspect dbg lvl) = Some (ValueError DuplicateEventsNames)
          \<or> raised (bringup attrs s cfg introspect dbg lvl) =
              Some (ValueError (DuplicateComponentNames (map (\<lambda>c. node_name (heap s c)) (components s)))))
         \<and> (distinct (map name (map fst (ros_actions s))) \<longrightarrow>
              raised (bringup attrs s cfg introspect dbg lvl) =
                Some (ValueError (DuplicateComponentNames (map (\<lambda>c. node_name (heap s c)) (components s)))))
         \<and> launch_group (state_of (bringup attrs s cfg introspect dbg lvl)) = launch_group s
         \<and> description (state_of (bringup attrs s cfg introspect dbg lvl)) = description s
         \<and> ls (state_of (bringup attrs s cfg introspect dbg lvl)) = ls s"
proof -
  let ?names = "map (\<lambda>c. node_name (heap s c)) (components s)"
  define s1 where "s1 = (if truthy cfg then configure s (the cfg) None else s)"
  have f: "ros_actions s1 = ros_actions s" "description s1 = description s"
    "launch_group s1 = launch_group s" "ls s1 = ls s" "components s1 = components s"
    by (simp_all add: s1_def configure_fields)
  have n: "map (\<lambda>c. node_name (heap s1 c)) (components s1) = ?names"
    by (simp add: s1_def configure_fields configure_node_name)
  from assms have ne: "components s \<noteq> []" by auto
  show ?thesis
  proof (cases "distinct (map name (map fst (ros_actions s)))")
    case True
    have nd1: "\<not> distinct (map (\<lambda>c. node_name (heap s1 c)) (components s1))"
      unfolding n by (rule assms)
    have d1: "distinct (map name (map fst (ros_actions s1)))"
      unfolding f(1) by (rule True)
    note r = setup_monitor_node_duplicate_components [OF nd1 d1, of attrs True, unfolded n]
    obtain e s2 where o: "setup_monitor_node attrs True s1 = Raised e s2"
      using r by (cases "setup_monitor_node attrs True s1") simp_all
    have b: "bringup attrs s cfg introspect dbg lvl = Raised e s2"
      by (rule bringup_monitor_raises [OF ne o [unfolded s1_def]])
    from r o have "e = ValueError (DuplicateComponentNames ?names)"
      "description s2 = description s" "launch_group s2 = launch_group s" "ls s2 = ls s"
      by (simp_all add: f(2,3,4))
    with b True show ?thesis by simp
  next
    case False
    have nd1: "\<not> distinct (map name (map fst (ros_actions s1)))"
      unfolding f(1) by (rule False)
    have "bringup attrs s cfg introspect dbg lvl =
           Raised (ValueError DuplicateEventsNames)
             (s1\<lparr>internal_events := Some (map fst (ros_actions s1)),
                 internal_event_names := Some (map name (map fst (ros_actions s1)))\<rparr>)"
      unfolding s1_def
      by (rule bringup_monitor_raises
            [OF ne setup_monitor_node_duplicate_events [OF nd1, of attrs True, unfolded s1_def]])
    with False f show ?thesis by simp
  qed
qed

text \<open>The example launchers, evaluated.\<close>

lemma duplicate_names_and_events_fields:
  "ros_actions duplicate_names_and_events =
     [(example_event 1 ''low_battery'', [Ros 7]), (example_event 2 ''low_battery'', [Ros 8, Ros 9])]
   \<and> components duplicate_names_and_events = [1, 2]
   \<and> heap duplicate_names_and_events = example_objects
   \<and> ls duplicate_names_and_events = None
   \<and> launch_group duplicate_names_and_events = []"
  by (simp add: duplicate_names_and_events_def add_pkg_def add_pkg_components_def add_pkg_activation_def Launcher_init_def Let_def
        update_dict_list_def example_event_def)

lemma duplicate_component_names_fields:
  "ros_actions duplicate_component_names = []
   \<and> components duplicate_component_names = [1, 2]
   \<and> heap duplicate_component_names = example_objects
   \<and> ls duplicate_component_names = None
   \<and> launch_group duplicate_component_names = []"
  by (simp add: duplicate_component_names_def add_pkg_def add_pkg_components_def add_pkg_activation_def Launcher_init_def Let_def)

theorem duplicate_internal_event_names_rejected_witness:
  "example_event 1 ''low_battery'' \<in> set (map fst (ros_actions duplicate_names_and_events))
   \<and> example_event 2 ''low_battery'' \<in> set (map fst (ros_actions duplicate_names_and_events))
   \<and> example_event 1 ''low_battery'' \<noteq> example_event 2 ''low_battery''
   \<and> name (example_event 1 ''low_battery'') = name (example_event 2 ''low_battery'')
   \<and> raised (setup_monitor_node Launcher_attrs True duplicate_names_and_events)
       = Some (ValueError DuplicateEventsNames)
   \<and> description (state_of (bringup Launcher_attrs duplicate_names_and_events None False False ''info''))
       = description duplicate_names_and_events
   \<and> ls (state_of (bringup Launcher_attrs duplicate_names_and_events None False False ''info'')) = None"
  using duplicate_internal_event_names_rejected
          [of "example_event 1 ''low_battery''" duplicate_names_and_events
              "example_event 2 ''low_battery''" Launcher_attrs True None False False "''info''"]
  by (simp add: duplicate_names_and_events_fields example_event_def)

theorem duplicate_component_names_rejected_witness:
  "\<not> distinct (map (\<lambda>c. node_name (heap duplicate_component_names c))
                  (components duplicate_component_names))
   \<and> raised (bringup Launcher_attrs duplicate_component_names None False False ''info'')
       = Some (ValueError (DuplicateComponentNames [''planner'', ''planner'']))
   \<and> launch_group (state_of (bringup Launcher_attrs duplicate_component_names None False False ''info'')) = []
   \<and> ls (state_of (bringup Launcher_attrs duplicate_component_names None False False ''info'')) = None"
  using duplicate_component_names_rejected
          [of duplicate_component_names Launcher_attrs None False False "''info''"]
  by (simp add: duplicate_component_names_fields example_objects_def example_component_def)

text \<open>
  C4 as stated fails where the internal events have a duplicate name too: the error
  raised is the one about event names, which names no component.
\<close>

theorem duplicate_component_names_error_not_named:
  "\<not> distinct (map (\<lambda>c. node_name (heap duplicate_names_and_events c))
                  (components duplicate_names_and_events))
   \<and> raised (bringup Launcher_attrs duplicate_names_and_events None False False ''info'')
       = Some (ValueError DuplicateEventsNames)"
  by (simp add: bringup_def setup_monitor_node_def Let_def duplicate_names_and_events_fields
        example_objects_def example_component_def example_event_def)

lemma same_name_component_events_fields:
  "ros_actions same_name_component_events = []
   \<and> components_actions same_name_component_events =
       [(example_event 1 ''low_battery'', [component_method_action ''restart'' ''camera'' 0]),
        (example_event 2 ''low_battery'', [component_method_action ''stop'' ''camera'' 0])]
   \<and> components same_name_component_events = [0]
   \<and> heap same_name_component_events = example_objects
   \<and> pkg_executable same_name_component_events = [(None, None)]
   \<and> ls same_name_component_events = None"
  by (simp add: same_name_component_events_def add_pkg_def add_pkg_components_def add_pkg_activation_def Launcher_init_def Let_def
        update_dict_list_def example_event_def component_method_action_def)

text \<open>
  C3 as stated fails for events outside \<open>_ros_actions\<close>: two different events with the
  same name that carry component actions only are both kept, \<open>bringup\<close> raises nothing
  and the launch is started.
\<close>

theorem same_name_events_not_rejected:
  "example_event 1 ''low_battery'' \<noteq> example_event 2 ''low_battery''
   \<and> name (example_event 1 ''low_battery'') = name (example_event 2 ''low_battery'')
   \<and> map fst (components_actions same_name_component_events)
       = [example_event 1 ''low_battery'', example_event 2 ''low_battery'']
   \<and> raised (bringup Launcher_attrs same_name_component_events None False False ''info'') = None
   \<and> ls (state_of (bringup Launcher_attrs same_name_component_events None False False ''info'')) \<noteq> None"
  by (simp add: bringup_def setup_monitor_node_def setup_internal_events_handlers_def Let_def
        same_name_component_events_fields setup_component_events_handlers_def
        setup_component_in_thread_def start_ros_launch_def
        example_objects_def example_component_def example_event_def)

subsection \<open>Validation of component actions at registration\<close>

lemma rewrite_action_Raised:
  assumes "rewrite_action cl ev x s = Raised e s'"
  shows "\<exists>a. x = Act a \<and> component_action a \<and> executable_self a \<notin> set cl
             \<and> e = InvalidAction (InvalidActionForCondition (name ev) (executable_self a))"
  using assms by (cases x) (auto split: if_splits simp: count_list_0_iff)

lemma rewrite_action_ls: "ls (state_of (rewrite_action cl ev x s)) = ls s"
  by (cases x) auto

lemma rewrite_action_set_Raised:
  assumes "rewrite_action_set cl ev xs s = Raised e s'"
  shows "\<exists>a. Act a \<in> set xs \<and> component_action a \<and> executable_self a \<notin> set cl
             \<and> e = InvalidAction (InvalidActionForCondition (name ev) (executable_self a))"
  using assms
proof (induction xs arbitrary: s)
  case Nil
  then show ?case by simp
next
  case (Cons x xs)
  show ?case
  proof (cases "rewrite_action cl ev x s")
    case (Returned s1)
    with Cons.prems have "rewrite_action_set cl ev xs s1 = Raised e s'" by simp
    from Cons.IH [OF this] show ?thesis by auto
  next
    case (Raised e1 s1)
    with Cons.prems have "e1 = e" by simp
    with rewrite_action_Raised [OF Raised] show ?thesis by auto
  qed
qed

lemma rewrite_action_set_ls: "ls (state_of (rewrite_action_set cl ev xs s)) = ls s"
proof (induction xs arbitrary: s)
  case Nil
  then show ?case by simp
next
  case (Cons x xs)
  show ?case
  proof (cases "rewrite_action cl ev x s")
    case (Returned s1)
    with Cons.IH [of s1] rewrite_action_ls [of cl ev x s] show ?thesis by simp
  next
    case (Raised e1 s1)
    with rewrite_action_ls [of cl ev x s] show ?thesis by simp
  qed
qed

lemma rewrite_action_set_offending:
  assumes "Act a \<in> set xs" "component_action a" "executable_self a \<notin> set cl"
  shows "\<exists>e s'. rewrite_action_set cl ev xs s = Raised e s'"
  using assms(1)
proof (induction xs arbitrary: s)
  case Nil
  then show ?case by simp
next
  case (Cons x xs)
  show ?case
  proof (cases "rewrite_action cl ev x s")
    case (Raised e1 s1)
    then show ?thesis by simp
  next
    case (Returned s1)
    have "x \<noteq> Act a"
    proof
      assume "x = Act a"
      with assms(2,3) have "rewrite_action cl ev x s
          = Raised (InvalidAction (InvalidActionForCondition (name ev) (executable_self a))) s"
        by (simp add: count_list_0_iff)
      with Returned show False by simp
    qed
    with Cons.prems have "Act a \<in> set xs" by simp
    from Cons.IH [OF this, of s1] Returned show ?thesis by simp
  qed
qed

lemma rewrite_actions_Raised:
  assumes "rewrite_actions_for_components cl evs s = Raised e s'"
  shows "\<exists>ev raw a. (ev, raw) \<in> set evs \<and> Act a \<in> set (action_set raw) \<and> component_action a
             \<and> executable_self a \<notin> set cl
             \<and> e = InvalidAction (InvalidActionForCondition (name ev) (executable_self a))"
  using assms
proof (induction evs arbitrary: s)
  case Nil
  then show ?case by simp
next
  case (Cons p evs)
  obtain ev raw where p: "p = (ev, raw)" by (cases p)
  show ?case
  proof (cases "rewrite_action_set cl ev (action_set raw) s")
    case (Returned s1)
    with Cons.prems p have "rewrite_actions_for_components cl evs s1 = Raised e s'" by simp
    from Cons.IH [OF this] show ?thesis by auto
  next
    case (Raised e1 s1)
    with Cons.prems p have "e1 = e" by simp
    with rewrite_action_set_Raised [OF Raised] p show ?thesis by auto
  qed
qed

lemma rewrite_actions_ls: "ls (state_of (rewrite_actions_for_components cl evs s)) = ls s"
proof (induction evs arbitrary: s)
  case Nil
  then show ?case by simp
next
  case (Cons p evs)
  obtain ev raw where p: "p = (ev, raw)" by (cases p)
  show ?case
  proof (cases "rewrite_action_set cl ev (action_set raw) s")
    case (Returned s1)
    with Cons.IH [of s1] rewrite_action_set_ls [of cl ev "action_set raw" s] p
    show ?thesis by simp
  next
    case (Raised e1 s1)
    with rewrite_action_set_ls [of cl ev "action_set raw" s] p show ?thesis by simp
  qed
qed

lemma rewrite_actions_offending:
  assumes "(ev, raw) \<in> set evs" "Act a \<in> set (action_set raw)" "component_action a"
    "executable_self a \<notin> set cl"
  shows "\<exists>e s'. rewrite_actions_for_components cl evs s = Raised e s'"
  using assms(1)
proof (induction evs arbitrary: s)
  case Nil
  then show ?case by simp
next
  case (Cons p evs)
  obtain ev1 raw1 where p: "p = (ev1, raw1)" by (cases p)
  show ?case
  proof (cases "rewrite_action_set cl ev1 (action_set raw1) s")
    case (Raised e1 s1)
    with p show ?thesis by simp
  next
    case (Returned s1)
    have "p \<noteq> (ev, raw)"
    proof
      assume "p = (ev, raw)"
      with p have "ev1 = ev" "raw1 = raw" by simp_all
      with rewrite_action_set_offending [OF assms(2,3,4), of ev s] Returned
      show False by simp
    qed
    with Cons.prems have "(ev, raw) \<in> set evs" by simp
    from Cons.IH [OF this, of s1] Returned p show ?thesis by simp
  qed
qed

lemma add_pkg_registers_events:
  assumes "enable_monitoring self"
    and "\<not> (multiprocessing \<and> (\<not> truthy package_name \<or> \<not> truthy executable_entry_point))"
    and "evs \<noteq> []"
  shows "\<exists>s2. ls s2 = ls self \<and>
           add_pkg self comps package_name executable_entry_point (Some evs) multiprocessing
             activate_all comps_to_activate =
           (case rewrite_actions_for_components comps evs s2 of
              Raised e s3 \<Rightarrow> Raised e s3
            | Returned s3 \<Rightarrow> Returned (configure_from_config_file comps s3))"
proof -
  define s2 where "s2 = add_pkg_activation
      (add_pkg_components self comps (if multiprocessing then package_name else None)
         (if multiprocessing then executable_entry_point else None))
      comps multiprocessing activate_all comps_to_activate"
  have m: "enable_monitoring s2" and l: "ls s2 = ls self"
    using assms(1) by (simp_all add: s2_def add_pkg_activation_def add_pkg_components_def)
  have "add_pkg self comps package_name executable_entry_point (Some evs) multiprocessing
             activate_all comps_to_activate =
           (case rewrite_actions_for_components comps evs s2 of
              Raised e s3 \<Rightarrow> Raised e s3
            | Returned s3 \<Rightarrow> Returned (configure_from_config_file comps s3))"
    unfolding add_pkg_def Let_def s2_def [symmetric]
    using assms(2,3) m by auto
  with l show ?thesis by (intro exI [of _ s2] conjI)
qed

lemma add_pkg_raises_invalid_action:
  assumes "enable_monitoring self"
    and "\<not> (multiprocessing \<and> (\<not> truthy package_name \<or> \<not> truthy executable_entry_point))"
    and "(ev, raw) \<in> set evs" "Act a \<in> set (action_set raw)" "component_action a"
    and "executable_self a \<notin> set comps"
  shows "(\<exists>ev' raw' a'. (ev', raw') \<in> set evs \<and> Act a' \<in> set (action_set raw')
            \<and> component_action a' \<and> executable_self a' \<notin> set comps
            \<and> raised (add_pkg self comps package_name executable_entry_point (Some evs)
                         multiprocessing activate_all comps_to_activate)
                = Some (InvalidAction (InvalidActionForCondition (name ev') (executable_self a'))))
         \<and> ls (state_of (add_pkg self comps package_name executable_entry_point (Some evs)
                         multiprocessing activate_all comps_to_activate)) = ls self"
proof -
  from assms(3) have ne: "evs \<noteq> []" by auto
  from add_pkg_registers_events [OF assms(1,2) ne, of comps activate_all comps_to_activate]
  obtain s2 where l: "ls s2 = ls self"
    and eq: "add_pkg self comps package_name executable_entry_point (Some evs) multiprocessing
             activate_all comps_to_activate =
           (case rewrite_actions_for_components comps evs s2 of
              Raised e s3 \<Rightarrow> Raised e s3
            | Returned s3 \<Rightarrow> Returned (configure_from_config_file comps s3))"
    by auto
  from rewrite_actions_offending [OF assms(3,4,5,6), of s2]
  obtain e s' where r: "rewrite_actions_for_components comps evs s2 = Raised e s'" by auto
  from rewrite_actions_ls [of comps evs s2] r l have "ls s' = ls self" by simp
  with rewrite_actions_Raised [OF r] eq r show ?thesis by auto
qed

lemma example_launcher_fields:
  "enable_monitoring (example_launcher m) = m \<and> ls (example_launcher m) = None
   \<and> components_actions (example_launcher m) = []"
  by (simp add: example_launcher_def add_pkg_def add_pkg_components_def add_pkg_activation_def
        Launcher_init_def Let_def)

lemma first_rejected_action_first:
  assumes "first_rejected_action cl xs = Some a"
  shows "\<exists>pre post. xs = pre @ Act a # post \<and> first_rejected_action cl pre = None
                    \<and> component_action a \<and> executable_self a \<notin> set cl"
  using assms
proof (induction cl xs rule: first_rejected_action.induct)
  case (1 cl)
  then show ?case by simp
next
  case (2 cl r xs)
  then obtain pre post where "xs = pre @ Act a # post" "first_rejected_action cl pre = None"
    "component_action a" "executable_self a \<notin> set cl" by auto
  then have "Ros r # xs = (Ros r # pre) @ Act a # post \<and> first_rejected_action cl (Ros r # pre) = None
             \<and> component_action a \<and> executable_self a \<notin> set cl" by simp
  then show ?case by blast
next
  case (3 cl b xs)
  show ?case
  proof (cases "component_action b \<and> executable_self b \<notin> set cl")
    case True
    with 3 have "b = a" by simp
    with True have "Act b # xs = [] @ Act a # xs \<and> first_rejected_action cl [] = None
             \<and> component_action a \<and> executable_self a \<notin> set cl" by simp
    then show ?thesis by blast
  next
    case False
    with 3 obtain pre post where "xs = pre @ Act a # post" "first_rejected_action cl pre = None"
      "component_action a" "executable_self a \<notin> set cl" by auto
    with False have "Act b # xs = (Act b # pre) @ Act a # post
             \<and> first_rejected_action cl (Act b # pre) = None
             \<and> component_action a \<and> executable_self a \<notin> set cl" by simp
    then show ?thesis by blast
  qed
qed

lemma first_rejected_action_None:
  "first_rejected_action cl xs = None \<longleftrightarrow>
     (\<forall>a. Act a \<in> set xs \<longrightarrow> \<not> (component_action a \<and> executable_self a \<notin> set cl))"
  by (induction cl xs rule: first_rejected_action.induct) auto

lemma first_rejected_first:
  assumes "first_rejected cl evs = Some (ev, a)"
  shows "\<exists>pre raw post xs ys. evs = pre @ (ev, raw) # post \<and> first_rejected cl pre = None
           \<and> action_set raw = xs @ Act a # ys \<and> first_rejected_action cl xs = None
           \<and> component_action a \<and> executable_self a \<notin> set cl"
  using assms
proof (induction evs)
  case Nil
  then show ?case by simp
next
  case (Cons p evs)
  obtain ev1 raw1 where p: "p = (ev1, raw1)" by (cases p)
  show ?case
  proof (cases "first_rejected_action cl (action_set raw1)")
    case None
    with Cons.prems p have "first_rejected cl evs = Some (ev, a)" by simp
    from Cons.IH [OF this] obtain pre raw post xs ys where
      "evs = pre @ (ev, raw) # post" "first_rejected cl pre = None"
      "action_set raw = xs @ Act a # ys" "first_rejected_action cl xs = None"
      "component_action a" "executable_self a \<notin> set cl" by auto
    with None p have "p # evs = (p # pre) @ (ev, raw) # post \<and> first_rejected cl (p # pre) = None
           \<and> action_set raw = xs @ Act a # ys \<and> first_rejected_action cl xs = None
           \<and> component_action a \<and> executable_self a \<notin> set cl" by simp
    then show ?thesis by blast
  next
    case (Some b)
    with Cons.prems p have e: "ev1 = ev" "b = a" by simp_all
    from first_rejected_action_first [OF Some] e obtain xs ys where
      "action_set raw1 = xs @ Act a # ys" "first_rejected_action cl xs = None"
      "component_action a" "executable_self a \<notin> set cl" by auto
    with p e have "p # evs = [] @ (ev, raw1) # evs \<and> first_rejected cl [] = None
           \<and> action_set raw1 = xs @ Act a # ys \<and> first_rejected_action cl xs = None
           \<and> component_action a \<and> executable_self a \<notin> set cl" by simp
    then show ?thesis by blast
  qed
qed

lemma rewrite_action_set_raised:
  "raised (rewrite_action_set cl ev xs s)
     = map_option (\<lambda>a. InvalidAction (InvalidActionForCondition (name ev) (executable_self a)))
         (first_rejected_action cl xs)"
proof (induction xs arbitrary: s)
  case Nil
  then show ?case by simp
next
  case (Cons x xs)
  show ?case
  proof (cases x)
    case (Ros r)
    with Cons [of "s\<lparr>ros_actions := update_dict_list (ros_actions s) ev (Ros r)\<rparr>"]
    show ?thesis by simp
  next
    case (Act a)
    show ?thesis
    proof (cases "component_action a \<and> executable_self a \<notin> set cl")
      case True
      with Act show ?thesis by (simp add: count_list_0_iff)
    next
      case False
      then have "raised (rewrite_action cl ev (Act a) s) = None"
        by (auto simp: count_list_0_iff)
      then obtain s1 where "rewrite_action cl ev (Act a) s = Returned s1"
        by (cases "rewrite_action cl ev (Act a) s") simp_all
      with Cons [of s1] Act False show ?thesis by auto
    qed
  qed
qed

lemma rewrite_actions_raised:
  "raised (rewrite_actions_for_components cl evs s)
     = map_option (\<lambda>p. InvalidAction (InvalidActionForCondition (name (fst p))
                                         (executable_self (snd p))))
         (first_rejected cl evs)"
proof (induction evs arbitrary: s)
  case Nil
  then show ?case by simp
next
  case (Cons p evs)
  obtain ev raw where p: "p = (ev, raw)" by (cases p)
  show ?case
  proof (cases "rewrite_action_set cl ev (action_set raw) s")
    case (Returned s1)
    with rewrite_action_set_raised [of cl ev "action_set raw" s]
    have "first_rejected_action cl (action_set raw) = None" by simp
    with Cons [of s1] Returned p show ?thesis by simp
  next
    case (Raised e s1)
    with rewrite_action_set_raised [of cl ev "action_set raw" s]
    have m: "Some e = map_option (\<lambda>a. InvalidAction (InvalidActionForCondition (name ev)
                                          (executable_self a)))
                       (first_rejected_action cl (action_set raw))" by simp
    then obtain a where a: "first_rejected_action cl (action_set raw) = Some a"
      by (cases "first_rejected_action cl (action_set raw)") simp_all
    with m have "e = InvalidAction (InvalidActionForCondition (name ev) (executable_self a))"
      by simp
    with a Raised p show ?thesis by simp
  qed
qed

lemma first_rejected_exists:
  assumes "(ev, raw) \<in> set evs" "Act a \<in> set (action_set raw)" "component_action a"
    "executable_self a \<notin> set cl"
  shows "\<exists>ev' a'. first_rejected cl evs = Some (ev', a')"
proof -
  from rewrite_actions_offending [OF assms, of s0]
  obtain e s' where "rewrite_actions_for_components cl evs s0 = Raised e s'" by auto
  with rewrite_actions_raised [of cl evs s0] show ?thesis
    by (cases "first_rejected cl evs") auto
qed

lemma add_pkg_raised:
  assumes "enable_monitoring self"
    and "\<not> (multiprocessing \<and> (\<not> truthy package_name \<or> \<not> truthy executable_entry_point))"
  shows "raised (add_pkg self comps package_name executable_entry_point (Some evs)
                   multiprocessing activate_all comps_to_activate)
           = map_option (\<lambda>p. InvalidAction (InvalidActionForCondition (name (fst p))
                                               (executable_self (snd p))))
               (first_rejected comps evs)"
proof (cases "evs = []")
  case True
  with assms(2) show ?thesis by (auto simp: add_pkg_def Let_def)
next
  case False
  from add_pkg_registers_events [OF assms False, of comps activate_all comps_to_activate]
  obtain s2 where
    eq: "add_pkg self comps package_name executable_entry_point (Some evs) multiprocessing
             activate_all comps_to_activate =
           (case rewrite_actions_for_components comps evs s2 of
              Raised e s3 \<Rightarrow> Raised e s3
            | Returned s3 \<Rightarrow> Returned (configure_from_config_file comps s3))"
    by auto
  have "raised (add_pkg self comps package_name executable_entry_point (Some evs) multiprocessing
             activate_all comps_to_activate) = raised (rewrite_actions_for_components comps evs s2)"
    unfolding eq by (cases "rewrite_actions_for_components comps evs s2") simp_all
  then show ?thesis by (simp add: rewrite_actions_raised)
qed

text \<open>
  C5, as amended. With monitoring enabled and the multi-process arguments accepted, an
  events/actions dictionary that holds a component action whose component is not in the
  registry (the components registered before, and those of this call) makes \<open>add_pkg\<close>
  raise \<open>InvalidAction\<close>, and nothing is launched by the call. The error names the event
  and the component of the first component action, in the order of the dictionary and of
  its lists, whose component is not in the list of components passed to this call.
\<close>

theorem unregistered_component_action_rejected:
  assumes "enable_monitoring self"
    and "\<not> (multiprocessing \<and> (\<not> truthy package_name \<or> \<not> truthy executable_entry_point))"
    and "(ev, raw) \<in> set evs" "Act a \<in> set (action_set raw)" "component_action a"
    and "executable_self a \<notin> set (components self) \<union> set comps"
  shows "(\<exists>ev' a'. first_rejected comps evs = Some (ev', a')
            \<and> component_action a' \<and> executable_self a' \<notin> set comps
            \<and> raised (add_pkg self comps package_name executable_entry_point (Some evs)
                         multiprocessing activate_all comps_to_activate)
                = Some (InvalidAction (InvalidActionForCondition (name ev') (executable_self a'))))
         \<and> ls (state_of (add_pkg self comps package_name executable_entry_point (Some evs)
                         multiprocessing activate_all comps_to_activate)) = ls self"
proof -
  from assms(6) have nc: "executable_self a \<notin> set comps" by simp
  from first_rejected_exists [OF assms(3,4,5) nc]
  obtain ev' a' where f: "first_rejected comps evs = Some (ev', a')" by auto
  from first_rejected_first [OF f]
  have c: "component_action a'" "executable_self a' \<notin> set comps" by auto
  from add_pkg_raised [OF assms(1,2), of comps evs activate_all comps_to_activate] f
  have r: "raised (add_pkg self comps package_name executable_entry_point (Some evs)
                         multiprocessing activate_all comps_to_activate)
                = Some (InvalidAction (InvalidActionForCondition (name ev') (executable_self a')))"
    by simp
  from add_pkg_raises_invalid_action [OF assms(1,2,3,4,5) nc, of activate_all comps_to_activate]
  have l: "ls (state_of (add_pkg self comps package_name executable_entry_point (Some evs)
                         multiprocessing activate_all comps_to_activate)) = ls self"
    by (rule conjunct2)
  from f c r l show ?thesis by simp
qed

text \<open>
  Two events on the launcher that holds \<open>camera\<close>, in a call that passes \<open>planner\<close> alone:
  the first action is on \<open>camera\<close>, registered before, the second on a component that was
  never registered. The error names the first.
\<close>

theorem unregistered_component_action_rejected_witness:
  "enable_monitoring (example_launcher True)
   \<and> (example_event 2 ''overheated'', Single (Act (component_method_action ''stop'' ''ghost'' 7)))
       \<in> set [(example_event 1 ''low_battery'',
                Single (Act (component_method_action ''restart'' ''camera'' 0))),
               (example_event 2 ''overheated'',
                Single (Act (component_method_action ''stop'' ''ghost'' 7)))]
   \<and> component_action (component_method_action ''stop'' ''ghost'' 7)
   \<and> executable_self (component_method_action ''stop'' ''ghost'' 7)
       \<notin> set (components (example_launcher True)) \<union> set [1]
   \<and> first_rejected [1]
        [(example_event 1 ''low_battery'',
          Single (Act (component_method_action ''restart'' ''camera'' 0))),
         (example_event 2 ''overheated'',
          Single (Act (component_method_action ''stop'' ''ghost'' 7)))]
       = Some (example_event 1 ''low_battery'', component_method_action ''restart'' ''camera'' 0)
   \<and> raised (add_pkg (example_launcher True) [1] None (Some ''executable'')
                (Some [(example_event 1 ''low_battery'',
                        Single (Act (component_method_action ''restart'' ''camera'' 0))),
                       (example_event 2 ''overheated'',
                        Single (Act (component_method_action ''stop'' ''ghost'' 7)))])
                False True None)
       = Some (InvalidAction (InvalidActionForCondition ''low_battery'' 0))
   \<and> ls (state_of (add_pkg (example_launcher True) [1] None (Some ''executable'')
                (Some [(example_event 1 ''low_battery'',
                        Single (Act (component_method_action ''restart'' ''camera'' 0))),
                       (example_event 2 ''overheated'',
                        Single (Act (component_method_action ''stop'' ''ghost'' 7)))])
                False True None)) = None"
  using unregistered_component_action_rejected
          [of "example_launcher True" False None "Some ''executable''"
              "example_event 2 ''overheated''"
              "Single (Act (component_method_action ''stop'' ''ghost'' 7))"
              "[(example_event 1 ''low_battery'',
                 Single (Act (component_method_action ''restart'' ''camera'' 0))),
                (example_event 2 ''overheated'',
                 Single (Act (component_method_action ''stop'' ''ghost'' 7)))]"
              "component_method_action ''stop'' ''ghost'' 7" "[1]" True None]
  by (simp add: component_method_action_def example_event_def
        example_launcher_fields example_launcher_components)

text \<open>
  C5 as stated fails on a launcher created with monitoring disabled: \<open>add_pkg\<close> skips the
  events/actions, so an action on a component that was never registered raises nothing.
\<close>

theorem unregistered_component_action_ignored_without_monitoring:
  "executable_self (component_method_action ''restart'' ''planner'' 1)
     \<notin> set (components (state_of (add_pkg (Launcher_init [] None False True example_objects) [0]
                None (Some ''executable'') (Some (one_component_action ''restart'' ''planner'' 1))
                False True None)))
   \<and> raised (add_pkg (Launcher_init [] None False True example_objects) [0] None (Some ''executable'')
                (Some (one_component_action ''restart'' ''planner'' 1)) False True None)
       = None"
  by (simp add: add_pkg_def add_pkg_components_def add_pkg_activation_def Launcher_init_def Let_def
        one_component_action_def component_method_action_def)

text \<open>
  C10, as amended. With monitoring enabled and the multi-process arguments accepted, a
  component action is checked against the list of components passed to the same call only:
  an action on a component that an earlier call registered, and that is not in the list of
  this call, makes \<open>add_pkg\<close> raise \<open>InvalidAction\<close>.
\<close>

theorem earlier_registered_component_action_rejected:
  assumes "enable_monitoring self"
    and "\<not> (multiprocessing \<and> (\<not> truthy package_name \<or> \<not> truthy executable_entry_point))"
    and "(ev, raw) \<in> set evs" "Act a \<in> set (action_set raw)" "component_action a"
    and "executable_self a \<in> set (components self)"
    and "executable_self a \<notin> set comps"
  shows "\<exists>ev' raw' a'. (ev', raw') \<in> set evs \<and> Act a' \<in> set (action_set raw')
            \<and> component_action a' \<and> executable_self a' \<notin> set comps
            \<and> raised (add_pkg self comps package_name executable_entry_point (Some evs)
                         multiprocessing activate_all comps_to_activate)
                = Some (InvalidAction (InvalidActionForCondition (name ev') (executable_self a')))"
  using add_pkg_raises_invalid_action [OF assms(1,2,3,4,5,7)] by (rule conjunct1)

theorem earlier_registered_component_action_rejected_witness:
  "enable_monitoring (example_launcher True)
   \<and> (example_event 1 ''low_battery'', Single (Act (component_method_action ''restart'' ''camera'' 0)))
       \<in> set (one_component_action ''restart'' ''camera'' 0)
   \<and> component_action (component_method_action ''restart'' ''camera'' 0)
   \<and> executable_self (component_method_action ''restart'' ''camera'' 0)
       \<in> set (components (example_launcher True))
   \<and> executable_self (component_method_action ''restart'' ''camera'' 0) \<notin> set [1]
   \<and> raised (add_pkg (example_launcher True) [1] None (Some ''executable'')
                (Some (one_component_action ''restart'' ''camera'' 0)) False True None)
       = Some (InvalidAction (InvalidActionForCondition ''low_battery'' 0))"
  using earlier_registered_component_action_rejected
          [of "example_launcher True" False None "Some ''executable''"
              "example_event 1 ''low_battery''"
              "Single (Act (component_method_action ''restart'' ''camera'' 0))"
              "one_component_action ''restart'' ''camera'' 0"
              "component_method_action ''restart'' ''camera'' 0" "[1]" True None]
  by (simp add: one_component_action_def component_method_action_def example_event_def
        example_launcher_fields example_launcher_components)

text \<open>
  C10 as stated fails on a launcher created with monitoring disabled: the second call
  raises nothing for an action on the component that the first call registered.
\<close>

theorem earlier_registered_component_action_ignored_without_monitoring:
  "executable_self (component_method_action ''restart'' ''camera'' 0)
     \<in> set (components (example_launcher False))
   \<and> executable_self (component_method_action ''restart'' ''camera'' 0) \<notin> set [1]
   \<and> raised (add_pkg (example_launcher False) [1] None (Some ''executable'')
                (Some (one_component_action ''restart'' ''camera'' 0)) False True None)
       = None"
  by (simp add: add_pkg_def add_pkg_components_def add_pkg_activation_def Let_def
        example_launcher_fields example_launcher_components
        one_component_action_def component_method_action_def)

subsection \<open>Fallbacks\<close>

lemma fallbacks_are_methods:
  assumes "an \<in> set (fallbacks c)"
  shows "\<exists>m. map_of (methods c) an = Some m"
proof -
  from assms have "an \<in> fst ` set (methods c)"
    by (auto simp: fallbacks_def)
  then have "map_of (methods c) an \<noteq> None"
    by (simp add: map_of_eq_None_iff)
  then show ?thesis by auto
qed

lemma on_fail_loop_rejected:
  assumes "c \<in> set cs"
    and "an \<notin> set (fallbacks (heap s c))
         \<or> (\<exists>m. map_of (methods (heap s c)) an = Some m \<and> list_ex (\<lambda>x. \<not> snd x) (parameters m))"
  shows "(\<exists>msg. raised (on_fail_loop cs an mr s) = Some (ValueError msg))
         \<and> on_fail_policy (heap (state_of (on_fail_loop cs an mr s)) c) = on_fail_policy (heap s c)"
  using assms
proof (induction cs arbitrary: s)
  case Nil
  then show ?case by simp
next
  case (Cons c' cs)
  show ?case
  proof (cases "an \<in> set (fallbacks (heap s c'))")
    case False
    then show ?thesis by simp
  next
    case True
    from fallbacks_are_methods [OF True] obtain m where m: "map_of (methods (heap s c')) an = Some m"
      by auto
    show ?thesis
    proof (cases "list_ex (\<lambda>x. \<not> snd x) (parameters m)")
      case True
      with \<open>an \<in> set (fallbacks (heap s c'))\<close> m show ?thesis by simp
    next
      case False
      let ?s' = "s\<lparr>heap := (heap s)(c' := component_on_fail an mr (heap s c'))\<rparr>"
      from False True m Cons.prems(2) have ne: "c' \<noteq> c" by auto
      with Cons.prems(1) have in_cs: "c \<in> set cs" by simp
      from ne have same: "heap ?s' c = heap s c" by simp
      have step: "on_fail_loop (c' # cs) an mr s = on_fail_loop cs an mr ?s'"
        using True m False by simp
      have rej: "an \<notin> set (fallbacks (heap ?s' c))
         \<or> (\<exists>m. map_of (methods (heap ?s' c)) an = Some m \<and> list_ex (\<lambda>x. \<not> snd x) (parameters m))"
        unfolding same by (rule Cons.prems(2))
      from Cons.IH [OF in_cs rej] show ?thesis
        unfolding step same .
    qed
  qed
qed

lemma two_component_launcher_fields:
  "components two_component_launcher = [0, 1] \<and> heap two_component_launcher = example_objects"
  by (simp add: two_component_launcher_def add_pkg_def add_pkg_components_def
        add_pkg_activation_def Launcher_init_def Let_def)

lemma fallback_accepted_on_fail:
  "fallback_accepted (component_on_fail an mr c) an' = fallback_accepted c an'"
  by (simp add: fallback_accepted_def component_on_fail_def fallbacks_def)

lemma component_on_fail_twice:
  "component_on_fail an mr (component_on_fail an mr c) = component_on_fail an mr c"
  by (simp add: component_on_fail_def)

lemma on_fail_loop_not_accepted:
  assumes "\<not> fallback_accepted (heap s c) an"
  shows "state_of (on_fail_loop (c # cs) an mr s) = s"
  using assms by (auto simp: fallback_accepted_def split: option.splits)

lemma on_fail_loop_accepted:
  assumes "fallback_accepted (heap s c) an"
  shows "on_fail_loop (c # cs) an mr s
           = on_fail_loop cs an mr (s\<lparr>heap := (heap s)(c := component_on_fail an mr (heap s c))\<rparr>)"
  using assms by (auto simp: fallback_accepted_def split: option.splits)

lemma on_fail_loop_heap:
  "heap (state_of (on_fail_loop cs an mr s)) r
     = (if r \<in> set (takeWhile (\<lambda>x. fallback_accepted (heap s x) an) cs)
        then component_on_fail an mr (heap s r) else heap s r)"
proof (induction cs arbitrary: s)
  case Nil
  then show ?case by simp
next
  case (Cons c cs)
  show ?case
  proof (cases "fallback_accepted (heap s c) an")
    case False
    with on_fail_loop_not_accepted [OF False, of cs mr] show ?thesis by simp
  next
    case True
    let ?s' = "s\<lparr>heap := (heap s)(c := component_on_fail an mr (heap s c))\<rparr>"
    have same: "(\<lambda>x. fallback_accepted (heap ?s' x) an) = (\<lambda>x. fallback_accepted (heap s x) an)"
      by (rule ext) (simp add: fallback_accepted_on_fail)
    from Cons [of ?s'] True show ?thesis
      unfolding on_fail_loop_accepted [OF True] same
      by (simp add: component_on_fail_twice)
  qed
qed

lemma rejected_not_accepted:
  assumes "an \<notin> set (fallbacks c)
         \<or> (\<exists>m. map_of (methods c) an = Some m \<and> list_ex (\<lambda>x. \<not> snd x) (parameters m))"
  shows "\<not> fallback_accepted c an"
  using assms by (auto simp: fallback_accepted_def)

text \<open>
  C6, as amended. For a component of the launcher and a call of \<open>on_fail\<close>: when the
  action name is not among the component's fallbacks, or the method it names has a
  parameter without a default, the call itself raises \<open>ValueError\<close>, and it installs no
  fallback on that component: its fallback policy is left as it was. The call installs
  the fallback on exactly the components that come before the first component of the list
  that does not pass the two checks, and leaves every other component as it was.
\<close>

theorem on_fail_rejects_at_configuration:
  assumes "c \<in> set (components self)"
    and "an \<notin> set (fallbacks (heap self c))
         \<or> (\<exists>m. map_of (methods (heap self c)) an = Some m
                \<and> list_ex (\<lambda>x. \<not> snd x) (parameters m))"
  shows "(\<exists>msg. raised (on_fail self an max_retries) = Some (ValueError msg))
         \<and> on_fail_policy (heap (state_of (on_fail self an max_retries)) c)
             = on_fail_policy (heap self c)
         \<and> c \<notin> set (takeWhile (\<lambda>r. fallback_accepted (heap self r) an) (components self))
         \<and> (\<forall>r. heap (state_of (on_fail self an max_retries)) r
                 = (if r \<in> set (takeWhile (\<lambda>r. fallback_accepted (heap self r) an)
                                   (components self))
                    then component_on_fail an max_retries (heap self r) else heap self r))"
proof -
  let ?pre = "takeWhile (\<lambda>r. fallback_accepted (heap self r) an) (components self)"
  have n: "\<not> fallback_accepted (heap self c) an"
    by (rule rejected_not_accepted [OF assms(2)])
  have a: "c \<notin> set ?pre"
  proof
    assume "c \<in> set ?pre"
    then have "fallback_accepted (heap self c) an" by (rule set_takeWhileD [THEN conjunct2])
    with n show False by contradiction
  qed
  have h: "\<forall>r. heap (state_of (on_fail self an max_retries)) r
                 = (if r \<in> set ?pre
                    then component_on_fail an max_retries (heap self r) else heap self r)"
    unfolding on_fail_def by (rule allI) (rule on_fail_loop_heap)
  note l = on_fail_loop_rejected [OF assms, of max_retries, folded on_fail_def]
  show ?thesis
    by (intro conjI) (rule l [THEN conjunct1], rule l [THEN conjunct2], rule a, rule h)
qed

lemma example_fallbacks:
  "fallbacks (example_objects 0) = [''restart'', ''reconfigure'']
   \<and> fallbacks (example_objects (Suc n)) = []"
  by (simp add: fallbacks_def example_objects_def example_component_def)

theorem on_fail_rejects_at_configuration_witness:
  "1 \<in> set (components two_component_launcher)
   \<and> ''restart'' \<notin> set (fallbacks (heap two_component_launcher 1))
   \<and> raised (on_fail two_component_launcher ''restart'' (Some 2))
       = Some (ValueError (NonValidFallback ''restart'' ''planner'' []))
   \<and> on_fail_policy (heap (state_of (on_fail two_component_launcher ''restart'' (Some 2))) 1)
       = None
   \<and> takeWhile (\<lambda>r. fallback_accepted (heap two_component_launcher r) ''restart'')
        (components two_component_launcher) = [0]
   \<and> heap (state_of (on_fail two_component_launcher ''restart'' (Some 2))) 0
       = component_on_fail ''restart'' (Some 2) (heap two_component_launcher 0)"
proof -
  have h1: "1 \<in> set (components two_component_launcher)"
    by (simp add: two_component_launcher_fields)
  have h2: "''restart'' \<notin> set (fallbacks (heap two_component_launcher 1))"
    by (simp add: fallbacks_def two_component_launcher_fields example_objects_def
          example_component_def)
  note t = on_fail_rejects_at_configuration [OF h1 disjI1 [OF h2], of "Some 2"]
  have r: "raised (on_fail two_component_launcher ''restart'' (Some 2))
             = Some (ValueError (NonValidFallback ''restart'' ''planner'' []))"
    by (simp add: on_fail_def fallbacks_def component_on_fail_def two_component_launcher_fields
          example_objects_def example_component_def)
  have i: "on_fail_policy (heap two_component_launcher 1) = None"
    by (simp add: two_component_launcher_fields example_objects_def example_component_def)
  have p: "on_fail_policy (heap (state_of (on_fail two_component_launcher ''restart'' (Some 2))) 1)
             = None"
    using t [THEN conjunct2, THEN conjunct1] i by simp
  have tw: "takeWhile (\<lambda>r. fallback_accepted (heap two_component_launcher r) ''restart'')
              (components two_component_launcher) = [0]"
    using example_fallbacks [of 0]
    by (simp add: fallback_accepted_def two_component_launcher_fields)
       (simp add: example_objects_def example_component_def)
  have h0: "heap (state_of (on_fail two_component_launcher ''restart'' (Some 2))) 0
              = component_on_fail ''restart'' (Some 2) (heap two_component_launcher 0)"
    using t [THEN conjunct2, THEN conjunct2, THEN conjunct2, THEN spec, of 0]
    unfolding tw by simp
  show ?thesis
    by (intro conjI) (rule h1, rule h2, rule r, rule p, rule tw, rule h0)
qed

lemma on_fail_required_parameter:
  "raised (on_fail (example_launcher True) ''reconfigure'' (Some 2))
       = Some (ValueError (FallbackTakesArguments ''reconfigure'' [(''new_config'', False)]))
   \<and> on_fail_policy (heap (state_of (on_fail (example_launcher True) ''reconfigure'' (Some 2))) 0)
       = None"
  by (simp add: on_fail_def fallbacks_def example_launcher_components example_objects_def
        example_component_def)

text \<open>An accepted fallback is installed.\<close>

lemma on_fail_installs_fallback:
  "raised (on_fail (example_launcher True) ''restart'' (Some 2)) = None
   \<and> on_fail_policy (heap (state_of (on_fail (example_launcher True) ''restart'' (Some 2))) 0)
       = Some (''restart'', Some 2)"
  by (simp add: on_fail_def fallbacks_def component_on_fail_def example_launcher_components
        example_objects_def example_component_def)

text \<open>
  C6 as stated fails where the rejected component is not the first: the loop checks and
  installs component by component. On the launcher with \<open>camera\<close> and \<open>planner\<close>,
  \<open>planner\<close> does not declare \<open>restart\<close> and the call raises, after it has installed
  \<open>restart\<close> as the fallback of \<open>camera\<close>.
\<close>

theorem on_fail_keeps_earlier_fallbacks:
  "1 \<in> set (components two_component_launcher)
   \<and> ''restart'' \<notin> set (fallbacks (heap two_component_launcher 1))
   \<and> raised (on_fail two_component_launcher ''restart'' None)
       = Some (ValueError (NonValidFallback ''restart'' ''planner'' []))
   \<and> on_fail_policy (heap two_component_launcher 0) = None
   \<and> on_fail_policy (heap (state_of (on_fail two_component_launcher ''restart'' None)) 0)
       = Some (''restart'', None)"
  by (simp add: on_fail_def fallbacks_def component_on_fail_def two_component_launcher_fields
        example_objects_def example_component_def)

subsection \<open>Order of the actions of an event\<close>

lemma actions_of_update_dict_list:
  "actions_of (update_dict_list d k v) e = actions_of d e @ (if e = k then [v] else [])"
  by (auto simp: update_dict_list_def actions_of_def update_conv' split: option.splits list.splits)

lemma ros_entries_append: "ros_entries (xs @ ys) = ros_entries xs @ ros_entries ys"
  by (induction xs rule: ros_entries.induct) simp_all

lemma component_entries_append:
  "component_entries (xs @ ys) = component_entries xs @ component_entries ys"
  by (induction xs rule: component_entries.induct) simp_all

lemma monitor_entries_append:
  "monitor_entries (xs @ ys) = monitor_entries xs @ monitor_entries ys"
  by (induction xs rule: monitor_entries.induct) simp_all

lemma rewrite_action_actions:
  assumes "rewrite_action cl ev x s = Returned s'"
  shows "actions_of (ros_actions s') e
           = actions_of (ros_actions s) e @ (if e = ev then ros_entries [x] else [])
         \<and> actions_of (components_actions s') e
           = actions_of (components_actions s) e @ (if e = ev then component_entries [x] else [])
         \<and> actions_of (monitor_actions s') e
           = actions_of (monitor_actions s) e @ (if e = ev then monitor_entries [x] else [])"
proof (cases x)
  case (Ros r)
  with assms show ?thesis by (auto simp: actions_of_update_dict_list)
next
  case (Act a)
  with assms show ?thesis by (auto simp: actions_of_update_dict_list split: if_splits)
qed

lemma rewrite_action_set_actions:
  assumes "rewrite_action_set cl ev xs s = Returned s'"
  shows "actions_of (ros_actions s') e
           = actions_of (ros_actions s) e @ (if e = ev then ros_entries xs else [])
         \<and> actions_of (components_actions s') e
           = actions_of (components_actions s) e @ (if e = ev then component_entries xs else [])
         \<and> actions_of (monitor_actions s') e
           = actions_of (monitor_actions s) e @ (if e = ev then monitor_entries xs else [])"
  using assms
proof (induction xs arbitrary: s)
  case Nil
  then show ?case by simp
next
  case (Cons x xs)
  show ?case
  proof (cases "rewrite_action cl ev x s")
    case (Raised e1 s1)
    with Cons.prems show ?thesis by simp
  next
    case (Returned s1)
    with Cons.prems have r: "rewrite_action_set cl ev xs s1 = Returned s'" by simp
    have split: "ros_entries (x # xs) = ros_entries [x] @ ros_entries xs"
      "component_entries (x # xs) = component_entries [x] @ component_entries xs"
      "monitor_entries (x # xs) = monitor_entries [x] @ monitor_entries xs"
      using ros_entries_append [of "[x]" xs] component_entries_append [of "[x]" xs]
        monitor_entries_append [of "[x]" xs] by simp_all
    from Cons.IH [OF r] rewrite_action_actions [OF Returned, of e]
    show ?thesis unfolding split by simp
  qed
qed

lemma rewrite_actions_actions:
  assumes "rewrite_actions_for_components cl evs s = Returned s'"
  shows "actions_of (ros_actions s') e
           = actions_of (ros_actions s) e @ ros_entries (registered_for e evs)
         \<and> actions_of (components_actions s') e
           = actions_of (components_actions s) e @ component_entries (registered_for e evs)
         \<and> actions_of (monitor_actions s') e
           = actions_of (monitor_actions s) e @ monitor_entries (registered_for e evs)"
  using assms
proof (induction evs arbitrary: s)
  case Nil
  then show ?case by simp
next
  case (Cons p evs)
  obtain ev raw where p: "p = (ev, raw)" by (cases p)
  show ?case
  proof (cases "rewrite_action_set cl ev (action_set raw) s")
    case (Raised e1 s1)
    with Cons.prems p show ?thesis by simp
  next
    case (Returned s1)
    with Cons.prems p have r: "rewrite_actions_for_components cl evs s1 = Returned s'" by simp
    from Cons.IH [OF r] rewrite_action_set_actions [OF Returned, of e] p
    show ?thesis
      by (simp add: ros_entries_append component_entries_append monitor_entries_append)
  qed
qed

lemma event_entities_ros:
  assumes "list_all is_ros xs"
  shows "event_entities attrs s nip xs acc = Inr (acc @ map ros_entity xs)"
  using assms
proof (induction xs arbitrary: acc)
  case Nil
  then show ?case by simp
next
  case (Cons x xs)
  then obtain r where "x = Ros r" by (cases x) simp_all
  with Cons show ?case by simp
qed

lemma internal_events_loop_ros:
  assumes "ros_only evs"
  shows "internal_events_loop attrs nip evs s
           = Returned (s\<lparr>description := description s @ map event_handler evs\<rparr>)"
  using assms
proof (induction evs arbitrary: s)
  case Nil
  then show ?case by simp
next
  case (Cons p evs)
  obtain ev acts where p: "p = (ev, acts)" by (cases p)
  from Cons.prems p have a: "list_all is_ros acts" and b: "ros_only evs"
    by (simp_all add: ros_only_def)
  show ?case
    unfolding p
    by (simp add: event_entities_ros [OF a] Cons.IH [OF b] event_handler_def)
qed

lemma setup_internal_events_handlers_ros:
  assumes "ros_only (ros_actions s)"
  shows "setup_internal_events_handlers attrs nip s
           = Returned (s\<lparr>description := description s @ map event_handler (ros_actions s)\<rparr>)"
  unfolding setup_internal_events_handlers_def
  using internal_events_loop_ros [OF assms, of attrs nip s] by simp

text \<open>The launcher's internal events hold ROS launch actions only, and registration keeps it so.\<close>

lemma list_all_AList_update:
  assumes "list_all P d" "P (k, v)"
  shows "list_all P (AList.update k v d)"
  using assms by (induction d) auto

lemma ros_only_update_dict_list:
  assumes "ros_only d" "is_ros v"
  shows "ros_only (update_dict_list d k v)"
proof (cases "map_of d k")
  case None
  with assms show ?thesis
    by (simp add: update_dict_list_def ros_only_def list_all_AList_update)
next
  case (Some xs)
  then have "(k, xs) \<in> set d" by (rule map_of_SomeD)
  with assms(1) have "list_all is_ros xs"
    by (auto simp: ros_only_def list_all_iff)
  with assms Some show ?thesis
    by (cases xs) (simp_all add: update_dict_list_def ros_only_def list_all_AList_update)
qed

lemma rewrite_action_ros_only:
  assumes "ros_only (ros_actions s)"
  shows "ros_only (ros_actions (state_of (rewrite_action cl ev x s)))"
proof (cases x)
  case (Ros r)
  with assms show ?thesis by (simp add: ros_only_update_dict_list)
next
  case (Act a)
  with assms show ?thesis by simp
qed

lemma rewrite_action_set_ros_only:
  assumes "ros_only (ros_actions s)"
  shows "ros_only (ros_actions (state_of (rewrite_action_set cl ev xs s)))"
  using assms
proof (induction xs arbitrary: s)
  case Nil
  then show ?case by simp
next
  case (Cons x xs)
  show ?case
  proof (cases "rewrite_action cl ev x s")
    case (Raised e1 s1)
    with rewrite_action_ros_only [OF Cons.prems, of cl ev x] show ?thesis by simp
  next
    case (Returned s1)
    with rewrite_action_ros_only [OF Cons.prems, of cl ev x] have "ros_only (ros_actions s1)"
      by simp
    from Cons.IH [OF this] Returned show ?thesis by simp
  qed
qed

lemma rewrite_actions_ros_only_state:
  assumes "ros_only (ros_actions s)"
  shows "ros_only (ros_actions (state_of (rewrite_actions_for_components cl evs s)))"
  using assms
proof (induction evs arbitrary: s)
  case Nil
  then show ?case by simp
next
  case (Cons p evs)
  obtain ev raw where p: "p = (ev, raw)" by (cases p)
  show ?case
  proof (cases "rewrite_action_set cl ev (action_set raw) s")
    case (Raised e1 s1)
    with rewrite_action_set_ros_only [OF Cons.prems, of cl ev "action_set raw"] p
    show ?thesis by simp
  next
    case (Returned s1)
    with rewrite_action_set_ros_only [OF Cons.prems, of cl ev "action_set raw"]
    have "ros_only (ros_actions s1)" by simp
    from Cons.IH [OF this] Returned p show ?thesis by simp
  qed
qed

lemma rewrite_actions_ros_only:
  assumes "rewrite_actions_for_components cl evs s = Returned s'" "ros_only (ros_actions s)"
  shows "ros_only (ros_actions s')"
  using rewrite_actions_ros_only_state [OF assms(2), of cl evs] assms(1) by simp

lemma configure_from_config_file_ros_actions:
  "ros_actions (configure_from_config_file cs s) = ros_actions s"
  by (induction cs arbitrary: s) simp_all

text \<open>
  So every launcher reached from a fresh one by \<open>add_pkg\<close> calls, whether they return or
  raise, has ROS launch actions only under its internal events.
\<close>

lemma add_pkg_ros_only:
  assumes "ros_only (ros_actions self)"
  shows "ros_only (ros_actions (state_of (add_pkg self comps package_name executable_entry_point
           evs multiprocessing activate_all comps_to_activate)))"
proof -
  define s2 where "s2 = add_pkg_activation
      (add_pkg_components self comps (if multiprocessing then package_name else None)
         (if multiprocessing then executable_entry_point else None))
      comps multiprocessing activate_all comps_to_activate"
  have r2: "ros_only (ros_actions s2)"
    using assms by (simp add: s2_def add_pkg_activation_def add_pkg_components_def)
  note r3 = rewrite_actions_ros_only_state [OF r2, of comps "the evs"]
  show ?thesis
  proof (cases "rewrite_actions_for_components comps (the evs) s2")
    case (Returned s3)
    with r3 r2 assms show ?thesis
      unfolding add_pkg_def Let_def s2_def [symmetric]
      by (simp add: configure_from_config_file_ros_actions)
  next
    case (Raised e s3)
    with r3 r2 assms show ?thesis
      unfolding add_pkg_def Let_def s2_def [symmetric]
      by (simp add: configure_from_config_file_ros_actions)
  qed
qed

lemma Launcher_init_ros_only: "ros_only (ros_actions (Launcher_init ns cfg m mp objs))"
  by (simp add: Launcher_init_def ros_only_def)

text \<open>
  The share of a component, set by \<open>_setup_component_events_handlers\<close>: for every event,
  the component actions of the event whose parent component is this component, in the
  order of the event's list.
\<close>

lemma component_share_inner:
  "actions_of (fold (\<lambda>a d'. if P a then update_dict_list d' k a else d') as d) e
     = actions_of d e @ (if e = k then filter P as else [])"
  by (induction as arbitrary: d) (simp_all add: actions_of_update_dict_list)

lemma component_share_outer:
  "actions_of (fold (\<lambda>item d. fold (\<lambda>a d'. if P a then update_dict_list d' (fst item) a else d')
                                 (snd item) d) items d) e
     = actions_of d e @ concat (map (\<lambda>item. if fst item = e then filter P (snd item) else []) items)"
  by (induction items arbitrary: d) (simp_all add: component_share_inner)

lemma concat_absent_key:
  assumes "e \<notin> fst ` set items"
  shows "concat (map (\<lambda>item. if fst item = e then f item else []) items) = []"
  using assms by (induction items) auto

lemma concat_distinct_key:
  assumes "distinct (map fst items)"
  shows "concat (map (\<lambda>item. if fst item = e then filter P (snd item) else []) items)
           = filter P (actions_of items e)"
  using assms
proof (induction items)
  case Nil
  then show ?case by (simp add: actions_of_def)
next
  case (Cons p items)
  show ?case
  proof (cases "fst p = e")
    case True
    with Cons.prems have "e \<notin> fst ` set items" by auto
    from concat_absent_key [OF this] True show ?thesis
      by (cases p) (simp add: actions_of_def)
  next
    case False
    with Cons show ?thesis by (cases p) (simp add: actions_of_def)
  qed
qed

lemma component_share_in_order:
  assumes "distinct (map fst (components_actions s))" "comp_events_actions (heap s c) = []"
  shows "actions_of (comp_events_actions (heap (setup_component_events_handlers c s) c)) e
           = filter (\<lambda>a. node_name (heap s c) = parent_component a)
               (actions_of (components_actions s) e)"
proof -
  let ?P = "\<lambda>a. node_name (heap s c) = parent_component a"
  let ?d = "fold (\<lambda>item d. fold (\<lambda>a d'. if ?P a then update_dict_list d' (fst item) a else d')
                               (snd item) d) (components_actions s) []"
  have d: "actions_of ?d e = filter ?P (actions_of (components_actions s) e)"
    using component_share_outer [of ?P "components_actions s" "[]" e]
      concat_distinct_key [OF assms(1), of e ?P]
    by (simp add: actions_of_def)
  show ?thesis
  proof (cases "components_actions s = []")
    case True
    with assms(2) show ?thesis
      by (simp add: setup_component_events_handlers_def actions_of_def)
  next
    case False
    show ?thesis
    proof (cases "?d = []")
      case True
      with d have "filter ?P (actions_of (components_actions s) e) = []"
        by (simp add: actions_of_def)
      with True False assms(2) show ?thesis
        by (simp add: setup_component_events_handlers_def Let_def actions_of_def)
    next
      case nonempty: False
      with False d show ?thesis
        by (simp add: setup_component_events_handlers_def Let_def)
    qed
  qed
qed

lemma distinct_update_dict_list:
  assumes "distinct (map fst d)"
  shows "distinct (map fst (update_dict_list d k v))"
  using assms
  by (auto simp: update_dict_list_def distinct_update split: option.splits list.splits)

lemma rewrite_action_keeps:
  "heap (state_of (rewrite_action cl ev x s)) = heap s"
  by (cases x) auto

lemma rewrite_action_distinct:
  assumes "distinct (map fst (components_actions s))"
  shows "distinct (map fst (components_actions (state_of (rewrite_action cl ev x s))))"
  using assms by (cases x) (auto simp: distinct_update_dict_list)

lemma rewrite_action_set_keeps:
  assumes "distinct (map fst (components_actions s))"
  shows "heap (state_of (rewrite_action_set cl ev xs s)) = heap s
         \<and> distinct (map fst (components_actions (state_of (rewrite_action_set cl ev xs s))))"
  using assms
proof (induction xs arbitrary: s)
  case Nil
  then show ?case by simp
next
  case (Cons x xs)
  note h = rewrite_action_keeps [of cl ev x s]
  note d = rewrite_action_distinct [OF Cons.prems, of cl ev x]
  show ?case
  proof (cases "rewrite_action cl ev x s")
    case (Raised e1 s1)
    with h d show ?thesis by simp
  next
    case (Returned s1)
    with h d have "heap s1 = heap s" "distinct (map fst (components_actions s1))" by simp_all
    with Cons.IH [of s1] Returned show ?thesis by simp
  qed
qed

lemma rewrite_actions_keeps:
  assumes "distinct (map fst (components_actions s))"
  shows "heap (state_of (rewrite_actions_for_components cl evs s)) = heap s
         \<and> distinct (map fst (components_actions
                               (state_of (rewrite_actions_for_components cl evs s))))"
  using assms
proof (induction evs arbitrary: s)
  case Nil
  then show ?case by simp
next
  case (Cons p evs)
  obtain ev raw where p: "p = (ev, raw)" by (cases p)
  note k = rewrite_action_set_keeps [OF Cons.prems, of cl ev "action_set raw"]
  show ?case
  proof (cases "rewrite_action_set cl ev (action_set raw) s")
    case (Raised e1 s1)
    with k p show ?thesis by simp
  next
    case (Returned s1)
    with k have "heap s1 = heap s" "distinct (map fst (components_actions s1))" by simp_all
    with Cons.IH [of s1] Returned p show ?thesis by simp
  qed
qed

lemma configure_from_config_file_keeps:
  "ros_actions (configure_from_config_file cs s) = ros_actions s
   \<and> components_actions (configure_from_config_file cs s) = components_actions s
   \<and> monitor_actions (configure_from_config_file cs s) = monitor_actions s
   \<and> comp_events_actions (heap (configure_from_config_file cs s) c) = comp_events_actions (heap s c)
   \<and> node_name (heap (configure_from_config_file cs s) c) = node_name (heap s c)"
  by (induction cs arbitrary: s) (simp_all add: configure_component_def)

text \<open>
  The keys of a dictionary are distinct, and a component of a fresh launcher holds no
  events/actions as long as \<open>_setup_component_events_handlers\<close> has not run: \<open>add_pkg\<close>
  keeps both, whether it returns or raises.
\<close>

lemma add_pkg_keeps:
  assumes "distinct (map fst (components_actions self))"
  shows "distinct (map fst (components_actions
           (state_of (add_pkg self comps package_name executable_entry_point evs multiprocessing
                        activate_all comps_to_activate))))
         \<and> comp_events_actions
             (heap (state_of (add_pkg self comps package_name executable_entry_point evs
                                multiprocessing activate_all comps_to_activate)) c)
             = comp_events_actions (heap self c)"
proof -
  define s2 where "s2 = add_pkg_activation
      (add_pkg_components self comps (if multiprocessing then package_name else None)
         (if multiprocessing then executable_entry_point else None))
      comps multiprocessing activate_all comps_to_activate"
  have f: "components_actions s2 = components_actions self" "heap s2 = heap self"
    by (simp_all add: s2_def add_pkg_activation_def add_pkg_components_def)
  have d2: "distinct (map fst (components_actions s2))" unfolding f(1) by (rule assms)
  note k = rewrite_actions_keeps [OF d2, of comps "the evs"]
  show ?thesis
  proof (cases "rewrite_actions_for_components comps (the evs) s2")
    case (Returned s3)
    with k d2 f assms configure_from_config_file_keeps [of comps s3 c]
      configure_from_config_file_keeps [of comps s2 c]
    show ?thesis
      unfolding add_pkg_def Let_def s2_def [symmetric] by simp
  next
    case (Raised e s3)
    with k d2 f assms configure_from_config_file_keeps [of comps s2 c]
    show ?thesis
      unfolding add_pkg_def Let_def s2_def [symmetric] by simp
  qed
qed

lemma Launcher_init_keeps:
  "distinct (map fst (components_actions (Launcher_init ns cfg m mp objs)))
   \<and> heap (Launcher_init ns cfg m mp objs) = objs"
  by (simp add: Launcher_init_def)

lemma add_pkg_returned:
  assumes "enable_monitoring self"
    and "raised (add_pkg self comps package_name executable_entry_point (Some evs) multiprocessing
                   activate_all comps_to_activate) = None"
  shows "\<exists>s2 s3. ros_actions s2 = ros_actions self
           \<and> components_actions s2 = components_actions self
           \<and> monitor_actions s2 = monitor_actions self
           \<and> heap s2 = heap self
           \<and> rewrite_actions_for_components comps evs s2 = Returned s3
           \<and> state_of (add_pkg self comps package_name executable_entry_point (Some evs)
                          multiprocessing activate_all comps_to_activate)
               = configure_from_config_file comps s3"
proof -
  define s2 where "s2 = add_pkg_activation
      (add_pkg_components self comps (if multiprocessing then package_name else None)
         (if multiprocessing then executable_entry_point else None))
      comps multiprocessing activate_all comps_to_activate"
  have f: "ros_actions s2 = ros_actions self" "components_actions s2 = components_actions self"
    "monitor_actions s2 = monitor_actions self" "heap s2 = heap self" "enable_monitoring s2"
    using assms(1) by (simp_all add: s2_def add_pkg_activation_def add_pkg_components_def)
  have v: "\<not> (multiprocessing \<and> (\<not> truthy package_name \<or> \<not> truthy executable_entry_point))"
  proof
    assume "multiprocessing \<and> (\<not> truthy package_name \<or> \<not> truthy executable_entry_point)"
    then have "raised (add_pkg self comps package_name executable_entry_point (Some evs)
                 multiprocessing activate_all comps_to_activate)
               = Some (ValueError MultiprocessNeedsPackage)"
      by (simp add: add_pkg_def)
    with assms(2) show False by simp
  qed
  have eq: "add_pkg self comps package_name executable_entry_point (Some evs) multiprocessing
              activate_all comps_to_activate =
            (case rewrite_actions_for_components comps evs s2 of
               Raised e s3 \<Rightarrow> Raised e s3
             | Returned s3 \<Rightarrow> Returned (configure_from_config_file comps s3))"
  proof (cases "evs = []")
    case True
    then show ?thesis
      unfolding add_pkg_def Let_def s2_def [symmetric] using v by auto
  next
    case False
    then show ?thesis
      unfolding add_pkg_def Let_def s2_def [symmetric] using v f(5) by auto
  qed
  show ?thesis
  proof (cases "rewrite_actions_for_components comps evs s2")
    case (Raised e s3)
    with eq assms(2) show ?thesis by simp
  next
    case (Returned s3)
    with eq have "state_of (add_pkg self comps package_name executable_entry_point (Some evs)
                          multiprocessing activate_all comps_to_activate)
               = configure_from_config_file comps s3" by simp
    with f Returned show ?thesis by blast
  qed
qed

text \<open>
  The inner loop of \<open>_setup_internal_events_handlers\<close> appends what each entry of the
  list gives, entry by entry in the order of the list.
\<close>

lemma event_entities_in_order:
  assumes "event_entities attrs s nip xs acc = Inr es"
  shows "\<exists>ess. list_all2 (\<lambda>x es'. entry_entities attrs s nip x = Inr es') xs ess
               \<and> es = acc @ concat ess"
  using assms
proof (induction xs arbitrary: acc)
  case Nil
  then have "list_all2 (\<lambda>x es'. entry_entities attrs s nip x = Inr es') [] []
             \<and> es = acc @ concat []" by simp
  then show ?case by blast
next
  case (Cons x xs)
  show ?case
  proof (cases "entry_entities attrs s nip x")
    case (Inl e)
    with Cons.prems show ?thesis by simp
  next
    case (Inr es1)
    with Cons.prems have "event_entities attrs s nip xs (acc @ es1) = Inr es" by simp
    from Cons.IH [OF this] obtain ess where
      "list_all2 (\<lambda>x es'. entry_entities attrs s nip x = Inr es') xs ess"
      "es = (acc @ es1) @ concat ess" by auto
    with Inr have "list_all2 (\<lambda>x es'. entry_entities attrs s nip x = Inr es') (x # xs) (es1 # ess)
             \<and> es = acc @ concat (es1 # ess)" by simp
    then show ?thesis by blast
  qed
qed

text \<open>
  C9, as amended. On a launcher with monitoring enabled, a call of \<open>add_pkg\<close> that returns
  appends, for every event and for each kind of action (ROS launch action, component
  action, monitor action), the actions of that kind that the call gives for the event, in
  registration order, to the list the launcher already holds for the event in the
  dictionary of that kind; adding under an existing event appends to its list and leaves
  the other events alone. The internal events hold ROS launch actions only, before the
  call as on every launcher that \<open>add_pkg\<close> has built and so after it, and the handler set
  up for each of them carries the log action followed by the event's ROS launch actions in
  the order of its list (the loop that builds it appends what each entry gives, entry by
  entry). A component that holds no events/actions yet is handed, for every event, the
  component actions whose parent it is, in the order of the event's list.
\<close>

theorem actions_accumulate_in_registration_order:
  assumes "enable_monitoring self"
    and "raised (add_pkg self comps package_name executable_entry_point (Some evs)
                   multiprocessing activate_all comps_to_activate) = None"
    and "ros_only (ros_actions self)"
    and "distinct (map fst (components_actions self))"
    and "comp_events_actions (heap self c) = []"
    and "s' = state_of (add_pkg self comps package_name executable_entry_point (Some evs)
                          multiprocessing activate_all comps_to_activate)"
  shows "actions_of (update_dict_list d k v) e = actions_of d e @ (if e = k then [v] else [])
         \<and> actions_of (ros_actions s') e
             = actions_of (ros_actions self) e @ ros_entries (registered_for e evs)
         \<and> actions_of (components_actions s') e
             = actions_of (components_actions self) e @ component_entries (registered_for e evs)
         \<and> actions_of (monitor_actions s') e
             = actions_of (monitor_actions self) e @ monitor_entries (registered_for e evs)
         \<and> ros_only (ros_actions s')
         \<and> setup_internal_events_handlers attrs nip s'
             = Returned (s'\<lparr>description := description s' @ map event_handler (ros_actions s')\<rparr>)
         \<and> (\<forall>xs acc es. event_entities attrs s' nip xs acc = Inr es \<longrightarrow>
               (\<exists>ess. list_all2 (\<lambda>x es'. entry_entities attrs s' nip x = Inr es') xs ess
                      \<and> es = acc @ concat ess))
         \<and> actions_of (comp_events_actions (heap (setup_component_events_handlers c s') c)) e
             = filter (\<lambda>a. node_name (heap s' c) = parent_component a)
                 (actions_of (components_actions self) e
                  @ component_entries (registered_for e evs))"
proof -
  from add_pkg_returned [OF assms(1,2)] assms(6)
  obtain s2 s3 where f: "ros_actions s2 = ros_actions self"
    "components_actions s2 = components_actions self"
    "monitor_actions s2 = monitor_actions self" "heap s2 = heap self"
    and r: "rewrite_actions_for_components comps evs s2 = Returned s3"
    and s': "s' = configure_from_config_file comps s3"
    by auto
  note k = configure_from_config_file_keeps [of comps s3]
  have ro2: "ros_only (ros_actions s2)" unfolding f(1) by (rule assms(3))
  have d2: "distinct (map fst (components_actions s2))" unfolding f(2) by (rule assms(4))
  note a = rewrite_actions_actions [OF r, of e, unfolded f]
  have ro: "ros_only (ros_actions s')"
    using rewrite_actions_ros_only [OF r ro2] k [of c] s' by simp
  from rewrite_actions_keeps [OF d2, of comps evs] r f(4)
  have h3: "heap s3 = heap self" and d3: "distinct (map fst (components_actions s3))"
    by simp_all
  have d': "distinct (map fst (components_actions s'))"
    using d3 k [of c] s' by simp
  have c': "comp_events_actions (heap s' c) = []"
    using k [of c] s' h3 assms(5) by simp
  have c1: "actions_of (update_dict_list d k v) e = actions_of d e @ (if e = k then [v] else [])"
    by (rule actions_of_update_dict_list)
  have c2: "actions_of (ros_actions s') e
             = actions_of (ros_actions self) e @ ros_entries (registered_for e evs)"
    using a k [of c] s' by simp
  have c3: "actions_of (components_actions s') e
             = actions_of (components_actions self) e @ component_entries (registered_for e evs)"
    using a k [of c] s' by simp
  have c4: "actions_of (monitor_actions s') e
             = actions_of (monitor_actions self) e @ monitor_entries (registered_for e evs)"
    using a k [of c] s' by simp
  have c6: "setup_internal_events_handlers attrs nip s'
             = Returned (s'\<lparr>description := description s' @ map event_handler (ros_actions s')\<rparr>)"
    by (rule setup_internal_events_handlers_ros [OF ro])
  have c7: "\<forall>xs acc es. event_entities attrs s' nip xs acc = Inr es \<longrightarrow>
               (\<exists>ess. list_all2 (\<lambda>x es'. entry_entities attrs s' nip x = Inr es') xs ess
                      \<and> es = acc @ concat ess)"
    by (intro allI impI) (rule event_entities_in_order)
  have c8: "actions_of (comp_events_actions (heap (setup_component_events_handlers c s') c)) e
             = filter (\<lambda>a. node_name (heap s' c) = parent_component a)
                 (actions_of (components_actions self) e
                  @ component_entries (registered_for e evs))"
    unfolding c3 [symmetric] by (rule component_share_in_order [OF d' c'])
  show ?thesis
    by (intro conjI) (rule c1, rule c2, rule c3, rule c4, rule ro, rule c6, rule c7, rule c8)
qed

lemma launcher_with_ros_actions_fields:
  "ros_actions launcher_with_ros_actions = [(example_event 1 ''low_battery'', [Ros 7, Ros 8])]
   \<and> components_actions launcher_with_ros_actions = []
   \<and> monitor_actions launcher_with_ros_actions = []
   \<and> enable_monitoring launcher_with_ros_actions
   \<and> heap launcher_with_ros_actions = example_objects
   \<and> description launcher_with_ros_actions = [PushRosNamespace []]
   \<and> config_file launcher_with_ros_actions = None"
  by (simp add: launcher_with_ros_actions_def add_pkg_def add_pkg_components_def
        add_pkg_activation_def Launcher_init_def Let_def update_dict_list_def)

lemma second_registration_fields:
  "raised (add_pkg launcher_with_ros_actions [1] None (Some ''executable'')
             (Some second_registration) False True None) = None
   \<and> ros_actions (state_of (add_pkg launcher_with_ros_actions [1] None (Some ''executable'')
             (Some second_registration) False True None))
       = [(example_event 1 ''low_battery'', [Ros 7, Ros 8, Ros 9])]
   \<and> description (state_of (add_pkg launcher_with_ros_actions [1] None (Some ''executable'')
             (Some second_registration) False True None)) = [PushRosNamespace []]
   \<and> heap (state_of (add_pkg launcher_with_ros_actions [1] None (Some ''executable'')
             (Some second_registration) False True None)) = example_objects"
  by (simp add: add_pkg_def add_pkg_components_def add_pkg_activation_def Let_def
        launcher_with_ros_actions_fields second_registration_def component_method_action_def
        update_dict_list_def example_event_def)

theorem actions_accumulate_in_registration_order_witness:
  "enable_monitoring launcher_with_ros_actions
   \<and> raised (add_pkg launcher_with_ros_actions [1] None (Some ''executable'')
                (Some second_registration) False True None) = None
   \<and> ros_only (ros_actions launcher_with_ros_actions)
   \<and> distinct (map fst (components_actions launcher_with_ros_actions))
   \<and> comp_events_actions (heap launcher_with_ros_actions 1) = []
   \<and> actions_of (ros_actions (state_of (add_pkg launcher_with_ros_actions [1] None
                     (Some ''executable'') (Some second_registration) False True None)))
         (example_event 1 ''low_battery'')
       = [Ros 7, Ros 8, Ros 9]
   \<and> actions_of (components_actions (state_of (add_pkg launcher_with_ros_actions [1] None
                     (Some ''executable'') (Some second_registration) False True None)))
         (example_event 1 ''low_battery'')
       = [component_method_action ''restart'' ''planner'' 1,
          component_method_action ''stop'' ''planner'' 1]
   \<and> description (state_of (setup_internal_events_handlers Launcher_attrs True
         (state_of (add_pkg launcher_with_ros_actions [1] None (Some ''executable'')
                      (Some second_registration) False True None))))
       = [PushRosNamespace [],
          RegisterEventHandler ''low_battery''
            [LogInfo ''GOT TRIGGER FOR EVENT low_battery'',
             RosLaunchAction 7, RosLaunchAction 8, RosLaunchAction 9]]
   \<and> actions_of (comp_events_actions (heap (setup_component_events_handlers 1
         (state_of (add_pkg launcher_with_ros_actions [1] None (Some ''executable'')
                      (Some second_registration) False True None))) 1))
         (example_event 1 ''low_battery'')
       = [component_method_action ''restart'' ''planner'' 1,
          component_method_action ''stop'' ''planner'' 1]"
proof -
  let ?r = "add_pkg launcher_with_ros_actions [1] None (Some ''executable'')
              (Some second_registration) False True None"
  let ?e = "example_event 1 ''low_battery''"
  have h1: "enable_monitoring launcher_with_ros_actions"
    by (simp add: launcher_with_ros_actions_fields)
  have h2: "raised ?r = None" by (rule second_registration_fields [THEN conjunct1])
  have ra: "ros_actions (state_of ?r) = [(?e, [Ros 7, Ros 8, Ros 9])]"
    by (rule second_registration_fields [THEN conjunct2, THEN conjunct1])
  have de: "description (state_of ?r) = [PushRosNamespace []]"
    by (rule second_registration_fields [THEN conjunct2, THEN conjunct2, THEN conjunct1])
  have he: "heap (state_of ?r) = example_objects"
    by (rule second_registration_fields [THEN conjunct2, THEN conjunct2, THEN conjunct2])
  have h3: "ros_only (ros_actions launcher_with_ros_actions)"
    by (simp add: launcher_with_ros_actions_fields ros_only_def)
  have h4: "distinct (map fst (components_actions launcher_with_ros_actions))"
    by (simp add: launcher_with_ros_actions_fields)
  have h5: "comp_events_actions (heap launcher_with_ros_actions 1) = []"
    by (simp add: launcher_with_ros_actions_fields example_objects_def example_component_def)
  note t = actions_accumulate_in_registration_order
             [OF h1 h2 h3 h4 h5 refl, of "[]" ?e "Ros 7" ?e Launcher_attrs True]
  have x2: "actions_of (ros_actions launcher_with_ros_actions) ?e = [Ros 7, Ros 8]"
    by (simp add: launcher_with_ros_actions_fields actions_of_def)
  have y2: "ros_entries (registered_for ?e second_registration) = [Ros 9]"
    by (simp add: second_registration_def)
  have x3: "actions_of (components_actions launcher_with_ros_actions) ?e = []"
    by (simp add: launcher_with_ros_actions_fields actions_of_def)
  have y3: "component_entries (registered_for ?e second_registration)
              = [component_method_action ''restart'' ''planner'' 1,
                 component_method_action ''stop'' ''planner'' 1]"
    by (simp add: second_registration_def component_method_action_def)
  have c2: "actions_of (ros_actions (state_of ?r)) ?e = [Ros 7, Ros 8, Ros 9]"
    unfolding t [THEN conjunct2, THEN conjunct1] x2 y2 by simp
  have c3: "actions_of (components_actions (state_of ?r)) ?e
              = [component_method_action ''restart'' ''planner'' 1,
                 component_method_action ''stop'' ''planner'' 1]"
    unfolding t [THEN conjunct2, THEN conjunct2, THEN conjunct1] x3 y3 by simp
  have c6: "description (state_of (setup_internal_events_handlers Launcher_attrs True (state_of ?r)))
              = [PushRosNamespace [],
                 RegisterEventHandler ''low_battery''
                   [LogInfo ''GOT TRIGGER FOR EVENT low_battery'',
                    RosLaunchAction 7, RosLaunchAction 8, RosLaunchAction 9]]"
    unfolding t [THEN conjunct2, THEN conjunct2, THEN conjunct2, THEN conjunct2, THEN conjunct2,
                 THEN conjunct1] ra de
    by (simp add: event_handler_def example_event_def)
  have nn: "node_name (heap (state_of ?r) 1) = ''planner''"
    unfolding he by (simp add: example_objects_def example_component_def)
  have c8: "actions_of (comp_events_actions (heap (setup_component_events_handlers 1
                 (state_of ?r)) 1)) ?e
              = [component_method_action ''restart'' ''planner'' 1,
                 component_method_action ''stop'' ''planner'' 1]"
    unfolding t [THEN conjunct2, THEN conjunct2, THEN conjunct2, THEN conjunct2, THEN conjunct2,
                 THEN conjunct2, THEN conjunct2] x3 y3 nn
    by (simp add: component_method_action_def)
  show ?thesis
    by (intro conjI) (rule h1, rule h2, rule h3, rule h4, rule h5, rule c2, rule c3, rule c6,
        rule c8)
qed

text \<open>
  C9 as stated fails in two ways. The launcher keeps the ROS launch actions, the
  component actions and the monitor actions of an event in three dictionaries: an event
  registered with a ROS launch action and a component action gives the same launcher
  whichever of the two was registered first, and the handler of the event carries the ROS
  launch action alone, so the order between the kinds is not kept. And on a launcher
  created with monitoring disabled \<open>add_pkg\<close> stores no action at all.
\<close>

theorem registration_order_across_kinds_not_kept:
  "add_pkg (Launcher_init [] None True True example_objects) [0] None (Some ''executable'')
     (Some [(example_event 1 ''low_battery'',
             Many [Ros 7, Act (component_method_action ''restart'' ''camera'' 0)])])
     False True None
   = add_pkg (Launcher_init [] None True True example_objects) [0] None (Some ''executable'')
     (Some [(example_event 1 ''low_battery'',
             Many [Act (component_method_action ''restart'' ''camera'' 0), Ros 7])])
     False True None
   \<and> raised (add_pkg (Launcher_init [] None True True example_objects) [0] None
               (Some ''executable'')
               (Some [(example_event 1 ''low_battery'',
                       Many [Act (component_method_action ''restart'' ''camera'' 0), Ros 7])])
               False True None) = None
   \<and> description (state_of (setup_internal_events_handlers Launcher_attrs True
        (state_of (add_pkg (Launcher_init [] None True True example_objects) [0] None
               (Some ''executable'')
               (Some [(example_event 1 ''low_battery'',
                       Many [Act (component_method_action ''restart'' ''camera'' 0), Ros 7])])
               False True None))))
       = [PushRosNamespace [],
          RegisterEventHandler ''low_battery''
            [LogInfo ''GOT TRIGGER FOR EVENT low_battery'', RosLaunchAction 7]]
   \<and> ros_actions (state_of (add_pkg (Launcher_init [] None False True example_objects) [0] None
               (Some ''executable'')
               (Some [(example_event 1 ''low_battery'', Many [Ros 7, Ros 8])])
               False True None)) = []"
  by (simp add: add_pkg_def add_pkg_components_def add_pkg_activation_def Let_def
        Launcher_init_def setup_internal_events_handlers_def component_method_action_def
        update_dict_list_def example_event_def)

end
